theory Spec2Isabelle
  imports Main
begin

section \<open>Go values used by the data source\<close>

text \<open>
  A Go slice is either \<open>nil\<close> or a (possibly empty) sequence of elements; both have length
  zero when they hold nothing, but they are different values. \<open>make0\<close> is
  \<^verbatim>\<open>make([]T, 0)\<close>, \<open>appendSlice\<close> is the built-in \<^verbatim>\<open>append(s, x)\<close>, whose result is never nil.
\<close>

datatype 'a slice = nil | Slice "'a list"

fun elems :: "'a slice \<Rightarrow> 'a list" where
  "elems nil = []"
| "elems (Slice xs) = xs"

definition len :: "'a slice \<Rightarrow> nat" where
  "len s = length (elems s)"

definition make0 :: "'a slice" where
  "make0 = Slice []"

definition appendSlice :: "'a slice \<Rightarrow> 'a \<Rightarrow> 'a slice" where
  "appendSlice s x = Slice (elems s @ [x])"

text \<open>
  The values of type \<^verbatim>\<open>interface{}\<close> that occur in this data source: a string, and a
  \<^verbatim>\<open>[]map[string]interface{}\<close>. A Go map is a finite partial function on its keys.
\<close>

datatype iface = IString string | IMaps "(string \<Rightarrow> iface option) slice"

type_synonym tfmap = "string \<Rightarrow> iface option"

text \<open>A Go \<^verbatim>\<open>error\<close> is observed through its message (\<^verbatim>\<open>err.Error()\<close>) only.\<close>

datatype error = Err string

fun Error :: "error \<Rightarrow> string" where
  "Error (Err msg) = msg"

text \<open>\<^verbatim>\<open>fmt.Errorf(prefix + "%s", err)\<close> and \<^verbatim>\<open>fmt.Sprintf("%s-%s", a, b)\<close>.\<close>

definition fmt_Errorf :: "string \<Rightarrow> error \<Rightarrow> error" where
  "fmt_Errorf prefix err = Err (prefix @ Error err)"

definition fmt_Sprintf_dash :: "string \<Rightarrow> string \<Rightarrow> string" where
  "fmt_Sprintf_dash a b = a @ ''-'' @ b"

text \<open>
  A failed type assertion \<^verbatim>\<open>x.(string)\<close> panics, and so does reading a field through a
  nil pointer. A pointer \<^verbatim>\<open>*T\<close> is a \<open>T option\<close>, the nil pointer being \<open>None\<close>.
\<close>

datatype panic = InterfaceConversion | NilDereference

fun assertString :: "iface \<Rightarrow> panic + string" where
  "assertString (IString s) = Inr s"
| "assertString (IMaps _) = Inl InterfaceConversion"

section \<open>Diagnostics\<close>

datatype severity = SeverityError | SeverityWarning

record Diagnostic =
  Severity :: severity
  Summary :: string
  Detail :: string

type_synonym Diagnostics = "Diagnostic list"

text \<open>\<^verbatim>\<open>diag.FromErr\<close> of a non-nil error: one diagnostic carrying the error's message.\<close>

definition diag_FromErr :: "error \<Rightarrow> Diagnostics" where
  "diag_FromErr err = [\<lparr>Severity = SeverityError, Summary = Error err, Detail = []\<rparr>]"

section \<open>The API structs\<close>

text \<open>
  The structs of \<^verbatim>\<open>google.golang.org/api/compute/v1\<close>, with the fields the data source
  reads. The items of a page and the secondary ranges of a subnetwork are slices of
  pointers: an element may be nil (a \<^verbatim>\<open>null\<close> of the response decodes to one), and a
  slice field absent from the response is \<open>nil\<close>. The field \<^verbatim>\<open>IpCidrRange\<close> of a
  secondary range is named \<open>RangeIpCidrRange\<close>, record fields being global names.
\<close>

record UsableSubnetworkSecondaryRange =
  RangeIpCidrRange :: string
  RangeName :: string

record UsableSubnetwork =
  ExternalIpv6Prefix :: string
  InternalIpv6Prefix :: string
  IpCidrRange :: string
  Ipv6AccessType :: string
  Network :: string
  Purpose :: string
  Role :: string
  SecondaryIpRanges :: "UsableSubnetworkSecondaryRange option slice"
  StackType :: string
  Subnetwork :: string

record UsableSubnetworksAggregatedList =
  Items :: "UsableSubnetwork option slice"
  NextPageToken :: string

section \<open>Reshaping a subnetwork into a schema map\<close>

text \<open>
  Each function reads the fields of the struct its argument points to, and panics when
  the argument is nil; a panic of a call is the panic of its caller.
\<close>

definition generateTfSecondaryIpRange ::
  "UsableSubnetworkSecondaryRange option \<Rightarrow> panic + tfmap" where
  "generateTfSecondaryIpRange secondaryIpRange =
     (case secondaryIpRange of
        None \<Rightarrow> Inl NilDereference
      | Some r \<Rightarrow>
          Inr [''range_name'' \<mapsto> IString (RangeName r),
               ''ip_cidr_range'' \<mapsto> IString (RangeIpCidrRange r)])"

text \<open>The loop of \<^verbatim>\<open>generateTfSecondaryIpRanges\<close>, over the elements left to visit.\<close>

fun generateTfSecondaryIpRanges_loop ::
  "UsableSubnetworkSecondaryRange option list \<Rightarrow> tfmap slice \<Rightarrow> panic + tfmap slice" where
  "generateTfSecondaryIpRanges_loop [] allSecondaryIpRanges = Inr allSecondaryIpRanges"
| "generateTfSecondaryIpRanges_loop (secIpRange # rest) allSecondaryIpRanges =
     (case generateTfSecondaryIpRange secIpRange of
        Inl p \<Rightarrow> Inl p
      | Inr m \<Rightarrow> generateTfSecondaryIpRanges_loop rest (appendSlice allSecondaryIpRanges m))"

definition generateTfSecondaryIpRanges ::
  "UsableSubnetworkSecondaryRange option slice \<Rightarrow> panic + tfmap slice" where
  "generateTfSecondaryIpRanges secondaryIpRanges =
     generateTfSecondaryIpRanges_loop (elems secondaryIpRanges) make0"

definition generateTfSubnetwork :: "UsableSubnetwork option \<Rightarrow> panic + tfmap" where
  "generateTfSubnetwork usableSubnetwork =
     (case usableSubnetwork of
        None \<Rightarrow> Inl NilDereference
      | Some u \<Rightarrow>
          (case generateTfSecondaryIpRanges (SecondaryIpRanges u) of
             Inl p \<Rightarrow> Inl p
           | Inr ranges \<Rightarrow>
               Inr [''subnetwork'' \<mapsto> IString (Subnetwork u),
                    ''network'' \<mapsto> IString (Network u),
                    ''ip_cidr_range'' \<mapsto> IString (IpCidrRange u),
                    ''secondary_ip_ranges'' \<mapsto> IMaps ranges,
                    ''stack_type'' \<mapsto> IString (StackType u),
                    ''ipv6_access_type'' \<mapsto> IString (Ipv6AccessType u),
                    ''purpose'' \<mapsto> IString (Purpose u),
                    ''role'' \<mapsto> IString (Role u),
                    ''external_ipv6_prefix'' \<mapsto> IString (ExternalIpv6Prefix u),
                    ''internal_ipv6_prefix'' \<mapsto> IString (InternalIpv6Prefix u)]))"

section \<open>The resource data of the plugin SDK\<close>

text \<open>
  \<^verbatim>\<open>schema.ResourceData\<close>: the attributes by key, the resource ID, and the field writer
  behind \<^verbatim>\<open>d.Set\<close>, which may reject a value with an error and then writes nothing.
\<close>

record ResourceData =
  attrs :: "string \<Rightarrow> iface option"
  Id :: string
  writeField :: "string \<Rightarrow> iface \<Rightarrow> error option"

text \<open>The zero value of a schema type: the empty string, the empty list.\<close>

fun isZero :: "iface \<Rightarrow> bool" where
  "isZero (IString s) = (s = [])"
| "isZero (IMaps xs) = (elems xs = [])"

text \<open>
  \<^verbatim>\<open>d.GetOk(key)\<close> returns the value and whether the key has been set to a non-zero value.
  The pair \<^verbatim>\<open>(v, true)\<close> is \<open>Some v\<close>; a pair with \<^verbatim>\<open>false\<close>, whose value the data source
  never uses, is \<open>None\<close>.
\<close>

definition GetOk :: "ResourceData \<Rightarrow> string \<Rightarrow> iface option" where
  "GetOk d key =
     (case attrs d key of
        None \<Rightarrow> None
      | Some v \<Rightarrow> if isZero v then None else Some v)"

definition Set_attr :: "ResourceData \<Rightarrow> string \<Rightarrow> iface \<Rightarrow> error option \<times> ResourceData" where
  "Set_attr d key v =
     (case writeField d key v of
        Some err \<Rightarrow> (Some err, d)
      | None \<Rightarrow> (None, d\<lparr>attrs := (attrs d)(key \<mapsto> v)\<rparr>))"

definition SetId :: "ResourceData \<Rightarrow> string \<Rightarrow> ResourceData" where
  "SetId d v = d\<lparr>Id := v\<rparr>"

section \<open>The synthetic resource ID\<close>

definition computeUsableSubnetworksListId :: "string \<Rightarrow> ResourceData \<Rightarrow> panic + string" where
  "computeUsableSubnetworksListId project d =
     (let filter0 = ''ALL'' in
      case GetOk d ''filter'' of
        Some subfilter \<Rightarrow>
          (case assertString subfilter of
             Inl p \<Rightarrow> Inl p
           | Inr filter1 \<Rightarrow> Inr (fmt_Sprintf_dash project filter1))
      | None \<Rightarrow> Inr (fmt_Sprintf_dash project filter0))"

section \<open>The list request and its pagination\<close>

text \<open>
  A \<^verbatim>\<open>SubnetworksListUsableCall\<close> of the API client: the user agent of the client that made
  it, the project, and the two URL parameters a call may carry. \<^verbatim>\<open>Filter\<close> and \<^verbatim>\<open>PageToken\<close>
  set their parameter; a parameter never set is absent from the request.
\<close>

record SubnetworksListUsableCall =
  call_userAgent :: string
  call_project :: string
  urlParam_filter :: "string option"
  urlParam_pageToken :: "string option"

definition ListUsable :: "string \<Rightarrow> string \<Rightarrow> SubnetworksListUsableCall" where
  "ListUsable userAgent project =
     \<lparr>call_userAgent = userAgent, call_project = project,
      urlParam_filter = None, urlParam_pageToken = None\<rparr>"

definition Filter :: "SubnetworksListUsableCall \<Rightarrow> string \<Rightarrow> SubnetworksListUsableCall" where
  "Filter c f = c\<lparr>urlParam_filter := Some f\<rparr>"

definition PageToken :: "SubnetworksListUsableCall \<Rightarrow> string \<Rightarrow> SubnetworksListUsableCall" where
  "PageToken c t = c\<lparr>urlParam_pageToken := Some t\<rparr>"

text \<open>
  One exchange with the service, \<^verbatim>\<open>c.Do()\<close>, answers a call with an error or a page and
  moves the world outside the program (of any type \<open>'w\<close>) to a new state.
\<close>

type_synonym 'w service =
  "SubnetworksListUsableCall \<Rightarrow> 'w \<Rightarrow> (error + UsableSubnetworksAggregatedList) \<times> 'w"

text \<open>
  \<^verbatim>\<open>c.Pages(ctx, f)\<close> of the API client: fetch a page, hand it to \<open>f\<close>, stop at the first
  error of either or at a page without a next-page token, otherwise go on from that token.
  The service decides how many pages there are, so the loop carries fuel: \<open>None\<close> is a loop
  that has not returned after that many exchanges. \<open>f\<close> threads the variables it captures
  as a state \<open>'s\<close>; a panic of \<open>f\<close> ends the loop as a panic. The page handed to \<open>f\<close> is
  allocated by the client and never nil.
\<close>

fun Pages ::
  "nat \<Rightarrow> 'w service \<Rightarrow> SubnetworksListUsableCall \<Rightarrow>
   (UsableSubnetworksAggregatedList \<Rightarrow> 's \<Rightarrow> panic + error option \<times> 's) \<Rightarrow> 's \<Rightarrow> 'w \<Rightarrow>
   ((panic + error option \<times> 's) \<times> 'w) option" where
  "Pages 0 srv c f s w = None"
| "Pages (Suc fuel) srv c f s w =
     (case srv c w of
        (Inl err, w') \<Rightarrow> Some (Inr (Some err, s), w')
      | (Inr x, w') \<Rightarrow>
          (case f x s of
             Inl p \<Rightarrow> Some (Inl p, w')
           | Inr (Some err, s') \<Rightarrow> Some (Inr (Some err, s'), w')
           | Inr (None, s') \<Rightarrow>
               if NextPageToken x = [] then Some (Inr (None, s'), w')
               else Pages fuel srv (PageToken c (NextPageToken x)) f s' w'))"

section \<open>Reading the data source\<close>

text \<open>
  \<^verbatim>\<open>generateUserAgentString\<close> and \<^verbatim>\<open>getProject\<close> are helpers of the provider, and the service
  is reached through the client of the provider configuration; the read takes the three
  as given.
\<close>

record Config =
  userAgent :: string

record 'w provider =
  generateUserAgentString :: "ResourceData \<Rightarrow> string \<Rightarrow> error + string"
  getProject :: "ResourceData \<Rightarrow> Config \<Rightarrow> error + string"
  Do :: "'w service"

text \<open>The body of the \<^verbatim>\<open>range subnetworks.Items\<close> loop, and the callback given to \<open>Pages\<close>.\<close>

fun appendSubnetworks ::
  "UsableSubnetwork option list \<Rightarrow> tfmap slice \<Rightarrow> panic + tfmap slice" where
  "appendSubnetworks [] allUsableSubnetworks = Inr allUsableSubnetworks"
| "appendSubnetworks (item # rest) allUsableSubnetworks =
     (case generateTfSubnetwork item of
        Inl p \<Rightarrow> Inl p
      | Inr m \<Rightarrow> appendSubnetworks rest (appendSlice allUsableSubnetworks m))"

definition collectPage ::
  "UsableSubnetworksAggregatedList \<Rightarrow> tfmap slice \<Rightarrow> panic + error option \<times> tfmap slice" where
  "collectPage subnetworks allUsableSubnetworks =
     (case appendSubnetworks (elems (Items subnetworks)) allUsableSubnetworks of
        Inl p \<Rightarrow> Inl p
      | Inr allUsableSubnetworks' \<Rightarrow> Inr (None, allUsableSubnetworks'))"

text \<open>
  The result of a read is a panic, or the diagnostics returned together with the
  resource data as the read leaves it; \<open>None\<close> is a read still paging when the fuel ends.
\<close>

definition dataSourceGoogleComputeUsableSubnetworksRead ::
  "nat \<Rightarrow> 'w provider \<Rightarrow> ResourceData \<Rightarrow> Config \<Rightarrow> 'w \<Rightarrow>
   ((panic + Diagnostics \<times> ResourceData) \<times> 'w) option" where
  "dataSourceGoogleComputeUsableSubnetworksRead fuel prov d config w =
     (case generateUserAgentString prov d (userAgent config) of
        Inl err \<Rightarrow> Some (Inr (diag_FromErr err, d), w)
      | Inr ua \<Rightarrow>
     (case getProject prov d config of
        Inl err \<Rightarrow> Some (Inr (diag_FromErr err, d), w)
      | Inr project \<Rightarrow>
     (case (case GetOk d ''filter'' of
              Some filter0 \<Rightarrow>
                (case assertString filter0 of
                   Inl p \<Rightarrow> Inl p
                 | Inr f \<Rightarrow> Inr (Filter (ListUsable ua project) f))
            | None \<Rightarrow> Inr (ListUsable ua project)) of
        Inl p \<Rightarrow> Some (Inl p, w)
      | Inr req \<Rightarrow>
     (case Pages fuel (Do prov) req collectPage make0 w of
        None \<Rightarrow> None
      | Some (Inl p, w') \<Rightarrow> Some (Inl p, w')
      | Some (Inr (Some err, _), w') \<Rightarrow> Some (Inr (diag_FromErr err, d), w')
      | Some (Inr (None, allUsableSubnetworks), w') \<Rightarrow>
     (case Set_attr d ''subnetworks'' (IMaps allUsableSubnetworks) of
        (Some err, d1) \<Rightarrow>
          Some (Inr (diag_FromErr (fmt_Errorf ''error setting subnetworks: '' err), d1), w')
      | (None, d1) \<Rightarrow>
     (case Set_attr d1 ''project'' (IString project) of
        (Some err, d2) \<Rightarrow>
          Some (Inr (diag_FromErr (fmt_Errorf ''error setting project: '' err), d2), w')
      | (None, d2) \<Rightarrow>
     (case computeUsableSubnetworksListId project d2 of
        Inl p \<Rightarrow> Some (Inl p, w')
      | Inr ident \<Rightarrow> Some (Inr ([], SetId d2 ident), w'))))))))"

section \<open>Observing a read\<close>

text \<open>
  An exchange is a call together with its answer. \<open>recorded\<close> wraps any service so that
  its world also keeps the exchanges made so far, in order; \<open>observed\<close> is a provider whose
  service is wrapped this way. They are services like any other, and serve to state what a
  read has sent and received.
\<close>

type_synonym exchange =
  "SubnetworksListUsableCall \<times> (error + UsableSubnetworksAggregatedList)"

definition recorded :: "'w service \<Rightarrow> ('w \<times> exchange list) service" where
  "recorded srv c wt =
     (case wt of (w, tr) \<Rightarrow> (case srv c w of (r, w') \<Rightarrow> (r, (w', tr @ [(c, r)]))))"

definition observed :: "'w provider \<Rightarrow> ('w \<times> exchange list) provider" where
  "observed prov =
     \<lparr>generateUserAgentString = generateUserAgentString prov,
      getProject = getProject prov,
      Do = recorded (Do prov)\<rparr>"

fun pagesOf :: "exchange list \<Rightarrow> UsableSubnetworksAggregatedList list" where
  "pagesOf [] = []"
| "pagesOf ((c, Inr x) # tr) = x # pagesOf tr"
| "pagesOf ((c, Inl err) # tr) = pagesOf tr"

fun failuresOf :: "exchange list \<Rightarrow> error list" where
  "failuresOf [] = []"
| "failuresOf ((c, Inr x) # tr) = failuresOf tr"
| "failuresOf ((c, Inl err) # tr) = err # failuresOf tr"

text \<open>The calls a read has made, in order, read off the world an observed read returns.\<close>

definition requestsOf ::
  "('r \<times> ('w \<times> exchange list)) option \<Rightarrow> SubnetworksListUsableCall list" where
  "requestsOf res = (case res of None \<Rightarrow> [] | Some (out, (w, tr)) \<Rightarrow> map fst tr)"

text \<open>
  The items of a sequence of pages, page after page and in page order, and what reshaping
  each of them gives.
\<close>

definition itemsInOrder ::
  "UsableSubnetworksAggregatedList list \<Rightarrow> (panic + tfmap) list" where
  "itemsInOrder ps = concat (map (\<lambda>p. map generateTfSubnetwork (elems (Items p))) ps)"

text \<open>
  An item holds no nil pointer when it is not nil itself and none of its secondary ranges
  is; a sequence of pages holds none when none of its items does.
\<close>

definition noNilPointer :: "UsableSubnetwork option \<Rightarrow> bool" where
  "noNilPointer item =
     (case item of None \<Rightarrow> False | Some u \<Rightarrow> None \<notin> set (elems (SecondaryIpRanges u)))"

definition noNilPointers :: "UsableSubnetworksAggregatedList list \<Rightarrow> bool" where
  "noNilPointers ps = list_all (\<lambda>p. list_all noNilPointer (elems (Items p))) ps"

text \<open>A script of pages each of which names a next page.\<close>

definition allContinue :: "UsableSubnetworksAggregatedList list \<Rightarrow> bool" where
  "allContinue ps = list_all (\<lambda>p. NextPageToken p \<noteq> []) ps"

text \<open>
  A service that answers from a script, whatever the call: its world is the list of the
  answers still to give.
\<close>

fun scripted :: "(error + UsableSubnetworksAggregatedList) list service" where
  "scripted c [] = (Inl (Err ''no response''), [])"
| "scripted c (r # rs) = (r, rs)"

text \<open>
  A script of pages is well paged when every page but the last names a next page and the
  last does not.
\<close>

fun wellPaged :: "UsableSubnetworksAggregatedList list \<Rightarrow> bool" where
  "wellPaged [] = False"
| "wellPaged [p] = (NextPageToken p = [])"
| "wellPaged (p # q # ps) = (NextPageToken p \<noteq> [] \<and> wellPaged (q # ps))"

text \<open>The filter parameter that the configured filter attribute stands for.\<close>

fun filterParam :: "iface option \<Rightarrow> string option" where
  "filterParam None = None"
| "filterParam (Some (IString f)) = (if f = [] then None else Some f)"
| "filterParam (Some (IMaps xs)) = None"

section \<open>Fixtures\<close>

text \<open>Concrete inputs on which the properties below are exercised.\<close>

definition acceptAll :: "string \<Rightarrow> iface \<Rightarrow> error option" where
  "acceptAll key v = None"

definition rejectKey :: "string \<Rightarrow> string \<Rightarrow> iface \<Rightarrow> error option" where
  "rejectKey k key v = (if key = k then Some (Err ''boom'') else None)"

definition dataWithFilter :: "iface option \<Rightarrow> ResourceData" where
  "dataWithFilter f = \<lparr>attrs = Map.empty(''filter'' := f), Id = [], writeField = acceptAll\<rparr>"

definition dataRejecting :: "string \<Rightarrow> ResourceData" where
  "dataRejecting k = \<lparr>attrs = Map.empty, Id = [], writeField = rejectKey k\<rparr>"

definition fixtureConfig :: Config where
  "fixtureConfig = \<lparr>userAgent = ''terraform''\<rparr>"

definition fixtureProvider ::
  "error + string \<Rightarrow> error + string \<Rightarrow> (error + UsableSubnetworksAggregatedList) list provider"
  where
  "fixtureProvider ua project =
     \<lparr>generateUserAgentString = (\<lambda>d s. ua), getProject = (\<lambda>d c. project), Do = scripted\<rparr>"

definition rangeA :: UsableSubnetworkSecondaryRange where
  "rangeA = \<lparr>RangeIpCidrRange = ''10.1.0.0/20'', RangeName = ''pods''\<rparr>"

definition subnetworkWith ::
  "string \<Rightarrow> UsableSubnetworkSecondaryRange option slice \<Rightarrow> UsableSubnetwork"
  where
  "subnetworkWith name ranges =
     \<lparr>ExternalIpv6Prefix = [], InternalIpv6Prefix = [], IpCidrRange = ''10.0.0.0/24'',
      Ipv6AccessType = [], Network = ''net'', Purpose = ''PRIVATE'', Role = [],
      SecondaryIpRanges = ranges, StackType = ''IPV4_ONLY'', Subnetwork = name\<rparr>"

definition pageWith ::
  "UsableSubnetwork option list \<Rightarrow> string \<Rightarrow> UsableSubnetworksAggregatedList" where
  "pageWith items token = \<lparr>Items = Slice items, NextPageToken = token\<rparr>"

definition pageA :: UsableSubnetworksAggregatedList where
  "pageA = pageWith [Some (subnetworkWith ''a'' nil)] ''t''"

definition pageB :: UsableSubnetworksAggregatedList where
  "pageB = pageWith [Some (subnetworkWith ''b'' (Slice [Some rangeA]))] []"

text \<open>The schema maps expected for \<open>rangeA\<close> and for a subnetwork made by \<open>subnetworkWith\<close>.\<close>

definition tfRangeA :: tfmap where
  "tfRangeA = [''range_name'' \<mapsto> IString ''pods'', ''ip_cidr_range'' \<mapsto> IString ''10.1.0.0/20'']"

definition tfSubnetworkWith :: "string \<Rightarrow> tfmap list \<Rightarrow> tfmap" where
  "tfSubnetworkWith name ranges =
     [''subnetwork'' \<mapsto> IString name,
      ''network'' \<mapsto> IString ''net'',
      ''ip_cidr_range'' \<mapsto> IString ''10.0.0.0/24'',
      ''secondary_ip_ranges'' \<mapsto> IMaps (Slice ranges),
      ''stack_type'' \<mapsto> IString ''IPV4_ONLY'',
      ''ipv6_access_type'' \<mapsto> IString [],
      ''purpose'' \<mapsto> IString ''PRIVATE'',
      ''role'' \<mapsto> IString [],
      ''external_ipv6_prefix'' \<mapsto> IString [],
      ''internal_ipv6_prefix'' \<mapsto> IString []]"

definition callFor :: "string option \<Rightarrow> string option \<Rightarrow> SubnetworksListUsableCall" where
  "callFor f t =
     \<lparr>call_userAgent = ''ua'', call_project = ''p'', urlParam_filter = f,
      urlParam_pageToken = t\<rparr>"

definition okProvider :: "(error + UsableSubnetworksAggregatedList) list provider" where
  "okProvider = fixtureProvider (Inr ''ua'') (Inr ''p'')"

definition written :: "ResourceData \<Rightarrow> tfmap list \<Rightarrow> string \<Rightarrow> ResourceData" where
  "written d items ident =
     d\<lparr>attrs := (attrs d)(''subnetworks'' \<mapsto> IMaps (Slice items), ''project'' \<mapsto> IString ''p''),
       Id := ident\<rparr>"

section \<open>The example template\<close>

text \<open>
  The text of \<^verbatim>\<open>gkebackup_backupplan_full.tf.erb\<close>, line by line; the lines are joined by
  newlines and the last one has none after it.
\<close>

definition joinLines :: "string list \<Rightarrow> string" where
  "joinLines ls =
     concat (map (\<lambda>l. l @ [CHR 0x0A]) (butlast ls)) @ (if ls = [] then [] else last ls)"

definition gkebackup_backupplan_full_lines :: "string list" where
  \<open>gkebackup_backupplan_full_lines =
   [''resource "google_container_cluster" "primary" {'',
    ''  provider = google-beta'',
    ''  name               = "<%= ctx[:vars]['cluster_name'] %>"'',
    ''  location           = "us-central1"'',
    ''  initial_node_count = 1'',
    ''  workload_identity_config {'',
    ''    workload_pool = "<%= ctx[:test_env_vars]['project'] %>.svc.id.goog"'',
    ''  }'',
    ''  addons_config {'',
    ''    gke_backup_agent_config {'',
    ''      enabled = true'',
    ''    }'',
    ''  }'',
    ''}'',
    '''',
    ''resource "google_gke_backup_backup_plan" "full" {'',
    ''  provider = google-beta'',
    ''  name = "<%= ctx[:vars]['name'] %>"'',
    ''  cluster = google_container_cluster.primary.id'',
    ''  location = "us-central1"'',
    ''  retention_policy {'',
    ''    backup_delete_lock_days = 30'',
    ''    backup_retain_days = 180'',
    ''  }'',
    ''  backup_schedule {'',
    ''    cron_schedule = "0 9 * * 1"'',
    ''  }'',
    ''  backup_config {'',
    ''    include_volume_data = true'',
    ''    include_secrets = true'',
    ''    selected_applications {'',
    ''      namespaced_names {'',
    ''        name = "app1"'',
    ''        namespace = "ns1"'',
    ''      }'',
    ''      namespaced_names {'',
    ''        name = "app2"'',
    ''        namespace = "ns2"'',
    ''      }'',
    ''    }'',
    ''  }'',
    ''}'']\<close>

definition gkebackup_backupplan_full :: string where
  "gkebackup_backupplan_full = joinLines gkebackup_backupplan_full_lines"

text \<open>
  ERB, as far as the template uses it: text outside tags is copied, and an expression tag
  \<^verbatim>\<open><%= code %>\<close> is replaced by the value of its code. Any other tag, and a tag left
  open, is outside this fragment (\<open>None\<close>). The scanner is in a tag when its flag is set.
\<close>

datatype token = Text string | Output string

fun push :: "char \<Rightarrow> token list \<Rightarrow> token list" where
  "push c [] = []"
| "push c (Text t # ts) = Text (c # t) # ts"
| "push c (Output t # ts) = Output (c # t) # ts"

fun erb_scan :: "bool \<Rightarrow> string \<Rightarrow> token list option" where
  "erb_scan False [] = Some [Text []]"
| "erb_scan True [] = None"
| "erb_scan False (c # cs) =
     (if c = CHR ''<'' \<and> take 1 cs = ''%'' then
        (if take 2 cs = ''%='' then
           map_option (\<lambda>ts. Text [] # ts) (erb_scan True (drop 2 cs))
         else None)
      else map_option (push c) (erb_scan False cs))"
| "erb_scan True (c # cs) =
     (if c = CHR ''%'' \<and> take 1 cs = ''>'' then
        map_option (\<lambda>ts. Output [] # ts) (erb_scan False (drop 1 cs))
      else map_option (push c) (erb_scan True cs))"

text \<open>
  The context of a rendering: the two hashes \<^verbatim>\<open>ctx[:vars]\<close> and \<^verbatim>\<open>ctx[:test_env_vars]\<close>.
  Looking up a key that a hash does not hold gives \<^verbatim>\<open>nil\<close>, which ERB prints as the empty
  string.
\<close>

record ctx =
  vars :: "string \<Rightarrow> string option"
  test_env_vars :: "string \<Rightarrow> string option"

definition to_s :: "string option \<Rightarrow> string" where
  "to_s v = (case v of None \<Rightarrow> [] | Some s \<Rightarrow> s)"

definition strip :: "string \<Rightarrow> string" where
  "strip s =
     rev (dropWhile (\<lambda>c. c = CHR '' '') (rev (dropWhile (\<lambda>c. c = CHR '' '') s)))"

text \<open>The key \<open>k\<close> of an expression of the form \<^verbatim>\<open>hash['k']\<close>.\<close>

definition index_key :: "string \<Rightarrow> string \<Rightarrow> string option" where
  "index_key hash e =
     (let p = hash @ [CHR ''['', CHR 0x27]; n = length p;
          k = take (length e - n - 2) (drop n e)
      in if take n e = p \<and> n + 2 \<le> length e
            \<and> drop (length e - 2) e = [CHR 0x27, CHR '']''] \<and> CHR 0x27 \<notin> set k
         then Some k else None)"

definition eval_code :: "ctx \<Rightarrow> string \<Rightarrow> string option" where
  "eval_code c code =
     (let e = strip code in
      case index_key ''ctx[:vars]'' e of
        Some k \<Rightarrow> Some (to_s (vars c k))
      | None \<Rightarrow>
          (case index_key ''ctx[:test_env_vars]'' e of
             Some k \<Rightarrow> Some (to_s (test_env_vars c k))
           | None \<Rightarrow> None))"

fun erb_result :: "ctx \<Rightarrow> token list \<Rightarrow> string option" where
  "erb_result c [] = Some []"
| "erb_result c (Text t # ts) = map_option (\<lambda>r. t @ r) (erb_result c ts)"
| "erb_result c (Output code # ts) =
     (case eval_code c code of
        None \<Rightarrow> None
      | Some v \<Rightarrow> map_option (\<lambda>r. v @ r) (erb_result c ts))"

definition render :: "ctx \<Rightarrow> string \<Rightarrow> string option" where
  "render c template =
     (case erb_scan False template of None \<Rightarrow> None | Some ts \<Rightarrow> erb_result c ts)"

section \<open>Properties of the reshaping functions\<close>

lemma generateTfSecondaryIpRange_Some:
  "generateTfSecondaryIpRange (Some r) =
     Inr [''range_name'' \<mapsto> IString (RangeName r),
          ''ip_cidr_range'' \<mapsto> IString (RangeIpCidrRange r)]"
  by (simp add: generateTfSecondaryIpRange_def)

lemma generateTfSecondaryIpRange_None: "generateTfSecondaryIpRange None = Inl NilDereference"
  by (simp add: generateTfSecondaryIpRange_def)



text \<open>
  The loops over pointers: they return the list of the maps when every element reshapes,
  and panic when an element is nil.
\<close>

lemma generateTfSecondaryIpRanges_loop_Inr:
  "map Inr ms = map generateTfSecondaryIpRange xs \<Longrightarrow>
   generateTfSecondaryIpRanges_loop xs (Slice acc) = Inr (Slice (acc @ ms))"
proof (induction xs arbitrary: acc ms)
  case Nil
  then show ?case by simp
next
  case (Cons x xs)
  then obtain m ms' where ms: "ms = m # ms'" "generateTfSecondaryIpRange x = Inr m"
    "map Inr ms' = map generateTfSecondaryIpRange xs"
    by (cases ms) auto
  with Cons.IH [of ms' "acc @ [m]"] show ?case
    by (simp add: appendSlice_def)
qed

lemma generateTfSecondaryIpRanges_loop_Inr_D:
  "generateTfSecondaryIpRanges_loop xs (Slice acc) = Inr res \<Longrightarrow>
   \<exists>ms. res = Slice (acc @ ms) \<and> map Inr ms = map generateTfSecondaryIpRange xs"
proof (induction xs arbitrary: acc)
  case Nil
  then show ?case by simp
next
  case (Cons x xs)
  then obtain m where m: "generateTfSecondaryIpRange x = Inr m"
    and rest: "generateTfSecondaryIpRanges_loop xs (Slice (acc @ [m])) = Inr res"
    by (auto simp add: appendSlice_def split: sum.splits)
  from Cons.IH [OF rest] obtain ms where "res = Slice ((acc @ [m]) @ ms)"
    "map Inr ms = map generateTfSecondaryIpRange xs"
    by blast
  with m show ?case
    by (intro exI [of _ "m # ms"]) simp
qed

lemma generateTfSecondaryIpRanges_loop_nil:
  "None \<in> set xs \<Longrightarrow> generateTfSecondaryIpRanges_loop xs acc = Inl NilDereference"
proof (induction xs arbitrary: acc)
  case Nil
  then show ?case by simp
next
  case (Cons x xs)
  then show ?case
    by (cases x) (auto simp add: generateTfSecondaryIpRange_def)
qed

lemma reshaped_ranges:
  "None \<notin> set xs \<Longrightarrow> \<exists>ms. map Inr ms = map generateTfSecondaryIpRange xs"
proof (induction xs)
  case Nil
  then show ?case by simp
next
  case (Cons x xs)
  then obtain ms where ms: "map Inr ms = map generateTfSecondaryIpRange xs"
    by auto
  from Cons.prems obtain r where "x = Some r"
    by (cases x) auto
  with ms show ?case
    by (intro exI [of _ "[''range_name'' \<mapsto> IString (RangeName r),
          ''ip_cidr_range'' \<mapsto> IString (RangeIpCidrRange r)] # ms"])
       (simp add: generateTfSecondaryIpRange_Some)
qed

lemma generateTfSecondaryIpRanges_Inr:
  "map Inr ms = map generateTfSecondaryIpRange (elems s) \<Longrightarrow>
   generateTfSecondaryIpRanges s = Inr (Slice ms)"
  by (simp add: generateTfSecondaryIpRanges_def make0_def generateTfSecondaryIpRanges_loop_Inr)

lemma generateTfSecondaryIpRanges_Inr_D:
  "generateTfSecondaryIpRanges s = Inr res \<Longrightarrow>
   \<exists>ms. res = Slice ms \<and> map Inr ms = map generateTfSecondaryIpRange (elems s)"
  using generateTfSecondaryIpRanges_loop_Inr_D [of "elems s" "[]" res]
  by (simp add: generateTfSecondaryIpRanges_def make0_def)

lemma generateTfSecondaryIpRanges_nil:
  "None \<in> set (elems s) \<Longrightarrow> generateTfSecondaryIpRanges s = Inl NilDereference"
  by (simp add: generateTfSecondaryIpRanges_def generateTfSecondaryIpRanges_loop_nil)

text \<open>The schema map of a subnetwork whose secondary ranges reshape to \<open>ms\<close>.\<close>

lemma generateTfSubnetwork_Some:
  "map Inr ms = map generateTfSecondaryIpRange (elems (SecondaryIpRanges u)) \<Longrightarrow>
   generateTfSubnetwork (Some u) =
     Inr [''subnetwork'' \<mapsto> IString (Subnetwork u),
          ''network'' \<mapsto> IString (Network u),
          ''ip_cidr_range'' \<mapsto> IString (IpCidrRange u),
          ''secondary_ip_ranges'' \<mapsto> IMaps (Slice ms),
          ''stack_type'' \<mapsto> IString (StackType u),
          ''ipv6_access_type'' \<mapsto> IString (Ipv6AccessType u),
          ''purpose'' \<mapsto> IString (Purpose u),
          ''role'' \<mapsto> IString (Role u),
          ''external_ipv6_prefix'' \<mapsto> IString (ExternalIpv6Prefix u),
          ''internal_ipv6_prefix'' \<mapsto> IString (InternalIpv6Prefix u)]"
  by (simp add: generateTfSubnetwork_def generateTfSecondaryIpRanges_Inr)

lemma generateTfSubnetwork_panic:
  "generateTfSubnetwork item = Inl p \<Longrightarrow> p = NilDereference \<and> \<not> noNilPointer item"
proof (cases item)
  case None
  then show "generateTfSubnetwork item = Inl p \<Longrightarrow> ?thesis"
    by (simp add: generateTfSubnetwork_def noNilPointer_def)
next
  case (Some u)
  assume p: "generateTfSubnetwork item = Inl p"
  show ?thesis
  proof (cases "None \<in> set (elems (SecondaryIpRanges u))")
    case True
    with p Some show ?thesis
      by (simp add: generateTfSubnetwork_def generateTfSecondaryIpRanges_nil noNilPointer_def)
  next
    case False
    then obtain ms where "map Inr ms = map generateTfSecondaryIpRange (elems (SecondaryIpRanges u))"
      using reshaped_ranges by blast
    with p Some show ?thesis
      by (simp add: generateTfSubnetwork_Some)
  qed
qed

lemma generateTfSubnetwork_noNilPointer:
  "noNilPointer item \<Longrightarrow> \<exists>m. generateTfSubnetwork item = Inr m"
  using generateTfSubnetwork_panic [of item] by (cases "generateTfSubnetwork item") auto






text \<open>
  C9, as the code has it. For a list none of whose elements is a nil pointer,
  \<open>generateTfSecondaryIpRanges\<close> returns a non-nil list with as many elements; for a nil
  or an empty list that is the empty, non-nil list, which is then the value under
  \<open>secondary_ip_ranges\<close> of a subnetwork without secondary ranges. It never returns nil;
  for a list with a nil pointer among its elements it does not return, it panics.
\<close>

theorem generateTfSecondaryIpRanges_not_nil:
  "(None \<notin> set (elems s) \<longrightarrow>
      (\<exists>ms. generateTfSecondaryIpRanges s = Inr (Slice ms) \<and> length ms = len s))
   \<and> (s = nil \<or> s = Slice [] \<longrightarrow> generateTfSecondaryIpRanges s = Inr (Slice []))
   \<and> (SecondaryIpRanges u = nil \<or> SecondaryIpRanges u = Slice [] \<longrightarrow>
        (\<exists>m. generateTfSubnetwork (Some u) = Inr m
           \<and> m ''secondary_ip_ranges'' = Some (IMaps (Slice []))))
   \<and> generateTfSecondaryIpRanges s \<noteq> Inr nil
   \<and> (None \<in> set (elems s) \<longrightarrow> generateTfSecondaryIpRanges s = Inl NilDereference)"
proof -
  have returns: "None \<notin> set (elems s) \<longrightarrow>
      (\<exists>ms. generateTfSecondaryIpRanges s = Inr (Slice ms) \<and> length ms = len s)"
  proof
    assume "None \<notin> set (elems s)"
    then obtain ms where ms: "map Inr ms = map generateTfSecondaryIpRange (elems s)"
      using reshaped_ranges by blast
    then have "length ms = len s"
      unfolding len_def by (metis length_map)
    with generateTfSecondaryIpRanges_Inr [OF ms]
    show "\<exists>ms. generateTfSecondaryIpRanges s = Inr (Slice ms) \<and> length ms = len s"
      by blast
  qed
  have empty: "s = nil \<or> s = Slice [] \<longrightarrow> generateTfSecondaryIpRanges s = Inr (Slice [])"
    by (auto simp add: generateTfSecondaryIpRanges_def make0_def)
  have subnetwork: "SecondaryIpRanges u = nil \<or> SecondaryIpRanges u = Slice [] \<longrightarrow>
        (\<exists>m. generateTfSubnetwork (Some u) = Inr m
           \<and> m ''secondary_ip_ranges'' = Some (IMaps (Slice [])))"
    by (auto simp add: generateTfSubnetwork_def generateTfSecondaryIpRanges_def make0_def)
  have never: "generateTfSecondaryIpRanges s \<noteq> Inr nil"
    using generateTfSecondaryIpRanges_Inr_D [of s nil] by auto
  have panics: "None \<in> set (elems s) \<longrightarrow> generateTfSecondaryIpRanges s = Inl NilDereference"
    by (simp add: generateTfSecondaryIpRanges_nil)
  show ?thesis
    by (intro conjI returns empty subnetwork never panics)
qed

theorem generateTfSecondaryIpRanges_not_nil_witness:
  "generateTfSecondaryIpRanges nil = Inr (Slice [])
   \<and> generateTfSecondaryIpRanges (Slice []) = Inr (Slice [])
   \<and> generateTfSecondaryIpRanges (Slice [Some rangeA]) = Inr (Slice [tfRangeA])
   \<and> SecondaryIpRanges (subnetworkWith ''a'' nil) = nil
   \<and> generateTfSubnetwork (Some (subnetworkWith ''a'' nil)) = Inr (tfSubnetworkWith ''a'' [])
   \<and> generateTfSecondaryIpRanges (Slice [Some rangeA, None]) = Inl NilDereference"
  using generateTfSecondaryIpRanges_not_nil [of nil "subnetworkWith ''a'' nil"]
        generateTfSecondaryIpRanges_not_nil [of "Slice []" "subnetworkWith ''a'' nil"]
        generateTfSecondaryIpRanges_not_nil [of "Slice [Some rangeA]" "subnetworkWith ''a'' nil"]
        generateTfSecondaryIpRanges_not_nil
          [of "Slice [Some rangeA, None]" "subnetworkWith ''a'' nil"]
  by (simp add: subnetworkWith_def tfSubnetworkWith_def tfRangeA_def rangeA_def
        generateTfSubnetwork_def generateTfSecondaryIpRanges_def make0_def appendSlice_def
        generateTfSecondaryIpRange_def)

text \<open>
  C9, as the claim states it, fails: for a list whose only element is a nil pointer the
  function returns no list, it panics.
\<close>

theorem generateTfSecondaryIpRanges_nil_element_counterexample:
  "generateTfSecondaryIpRanges (Slice [None]) = Inl NilDereference
   \<and> generateTfSecondaryIpRanges (Slice [None]) \<noteq> Inr (Slice [])
   \<and> generateTfSubnetwork (Some (subnetworkWith ''a'' (Slice [None]))) = Inl NilDereference"
  by (simp add: subnetworkWith_def generateTfSubnetwork_def generateTfSecondaryIpRanges_def
        generateTfSecondaryIpRange_def make0_def)

section \<open>Properties of the synthetic ID\<close>

text \<open>
  C1, as the code has it. The ID is the project, a dash, and the configured filter when the
  filter attribute holds a non-empty string; it is the project followed by \<open>-ALL\<close> when
  the attribute is unset, and also when it is set to the empty string.
\<close>

theorem computeUsableSubnetworksListId_filter_or_ALL:
  "(attrs d ''filter'' = Some (IString f) \<and> f \<noteq> [] \<longrightarrow>
      computeUsableSubnetworksListId p d = Inr (p @ ''-'' @ f))
   \<and> (attrs d ''filter'' = None \<or> attrs d ''filter'' = Some (IString []) \<longrightarrow>
      computeUsableSubnetworksListId p d = Inr (p @ ''-'' @ ''ALL''))"
  by (auto simp add: computeUsableSubnetworksListId_def GetOk_def fmt_Sprintf_dash_def)

theorem computeUsableSubnetworksListId_filter_or_ALL_witness:
  "attrs (dataWithFilter None) ''filter'' = None
   \<and> computeUsableSubnetworksListId ''p'' (dataWithFilter None) = Inr ''p-ALL''
   \<and> attrs (dataWithFilter (Some (IString ''name=foo''))) ''filter'' =
       Some (IString ''name=foo'')
   \<and> computeUsableSubnetworksListId ''p'' (dataWithFilter (Some (IString ''name=foo''))) =
       Inr ''p-name=foo''"
  using computeUsableSubnetworksListId_filter_or_ALL [of "dataWithFilter None" "[]" "''p''"]
        computeUsableSubnetworksListId_filter_or_ALL
          [of "dataWithFilter (Some (IString ''name=foo''))" "''name=foo''" "''p''"]
  by (simp add: dataWithFilter_def)

text \<open>
  C1, as the claim states it, fails for a filter set to the empty string: the ID is not
  the project, a dash and that string, but the project followed by \<open>-ALL\<close>.
\<close>

theorem computeUsableSubnetworksListId_empty_filter_counterexample:
  "attrs (dataWithFilter (Some (IString []))) ''filter'' = Some (IString [])
   \<and> computeUsableSubnetworksListId ''p'' (dataWithFilter (Some (IString []))) = Inr ''p-ALL''
   \<and> computeUsableSubnetworksListId ''p'' (dataWithFilter (Some (IString []))) \<noteq>
       Inr (''p'' @ ''-'' @ [])"
  by (simp add: dataWithFilter_def computeUsableSubnetworksListId_def GetOk_def
        fmt_Sprintf_dash_def)

section \<open>Rendering the example template\<close>

lemma erb_scan_text_char:
  "c \<noteq> CHR ''<'' \<Longrightarrow> erb_scan False (c # cs) = map_option (push c) (erb_scan False cs)"
  by simp

lemma erb_scan_open_tag:
  "erb_scan False (CHR ''<'' # CHR ''%'' # CHR ''='' # cs) =
     map_option (\<lambda>ts. Text [] # ts) (erb_scan True cs)"
  by simp

lemma erb_scan_code_char:
  "c \<noteq> CHR ''%'' \<Longrightarrow> erb_scan True (c # cs) = map_option (push c) (erb_scan True cs)"
  by simp

lemma erb_scan_close_tag:
  "erb_scan True (CHR ''%'' # CHR ''>'' # cs) =
     map_option (\<lambda>ts. Output [] # ts) (erb_scan False cs)"
  by simp

lemmas erb_scan_chars =
  erb_scan_text_char erb_scan_open_tag erb_scan_code_char erb_scan_close_tag

lemma eval_code_cluster_name:
  "eval_code c '' ctx[:vars]['cluster_name'] '' = Some (to_s (vars c ''cluster_name''))"
  by (simp add: eval_code_def strip_def index_key_def Let_def)

lemma eval_code_project:
  "eval_code c '' ctx[:test_env_vars]['project'] '' = Some (to_s (test_env_vars c ''project''))"
  by (simp add: eval_code_def strip_def index_key_def Let_def)

lemma eval_code_name:
  "eval_code c '' ctx[:vars]['name'] '' = Some (to_s (vars c ''name''))"
  by (simp add: eval_code_def strip_def index_key_def Let_def)

lemma gkebackup_backupplan_full_text:
  \<open>gkebackup_backupplan_full =
     ''resource "google_container_cluster" "primary" {\<newline>  provider = google-beta\<newline>  name               = "''
     @ ''<%= ctx[:vars]['cluster_name'] %>''
     @ ''"\<newline>  location           = "us-central1"\<newline>  initial_node_count = 1\<newline>  workload_identity_config {\<newline>    workload_pool = "''
     @ ''<%= ctx[:test_env_vars]['project'] %>''
     @ ''.svc.id.goog"\<newline>  }\<newline>  addons_config {\<newline>    gke_backup_agent_config {\<newline>      enabled = true\<newline>    }\<newline>  }\<newline>}\<newline>\<newline>resource "google_gke_backup_backup_plan" "full" {\<newline>  provider = google-beta\<newline>  name = "''
     @ ''<%= ctx[:vars]['name'] %>''
     @ ''"\<newline>  cluster = google_container_cluster.primary.id\<newline>  location = "us-central1"\<newline>  retention_policy {\<newline>    backup_delete_lock_days = 30\<newline>    backup_retain_days = 180\<newline>  }\<newline>  backup_schedule {\<newline>    cron_schedule = "0 9 * * 1"\<newline>  }\<newline>  backup_config {\<newline>    include_volume_data = true\<newline>    include_secrets = true\<newline>    selected_applications {\<newline>      namespaced_names {\<newline>        name = "app1"\<newline>        namespace = "ns1"\<newline>      }\<newline>      namespaced_names {\<newline>        name = "app2"\<newline>        namespace = "ns2"\<newline>      }\<newline>    }\<newline>  }\<newline>}''\<close>
  by (simp add: gkebackup_backupplan_full_def gkebackup_backupplan_full_lines_def joinLines_def)

text \<open>
  C8. The template is four pieces of text \<open>t0\<close>, \<open>t1\<close>, \<open>t2\<close>, \<open>t3\<close> with three expression
  tags between them, and no piece holds the start of a tag. For every context, rendering
  gives the same four pieces with \<open>cluster_name\<close> of \<open>ctx[:vars]\<close> in place of the first tag
  (the name of the cluster), \<open>project\<close> of \<open>ctx[:test_env_vars]\<close> in place of the second
  (the workload pool), and \<open>name\<close> of \<open>ctx[:vars]\<close> in place of the third (the name of the
  backup plan); with \<open>c1\<close>, \<open>proj\<close> and \<open>bp1\<close> these three values stand at those places.
\<close>

theorem gkebackup_backupplan_full_render:
  \<open>let t0 = ''resource "google_container_cluster" "primary" {\<newline>  provider = google-beta\<newline>  name               = "'';
       t1 = ''"\<newline>  location           = "us-central1"\<newline>  initial_node_count = 1\<newline>  workload_identity_config {\<newline>    workload_pool = "'';
       t2 = ''.svc.id.goog"\<newline>  }\<newline>  addons_config {\<newline>    gke_backup_agent_config {\<newline>      enabled = true\<newline>    }\<newline>  }\<newline>}\<newline>\<newline>resource "google_gke_backup_backup_plan" "full" {\<newline>  provider = google-beta\<newline>  name = "'';
       t3 = ''"\<newline>  cluster = google_container_cluster.primary.id\<newline>  location = "us-central1"\<newline>  retention_policy {\<newline>    backup_delete_lock_days = 30\<newline>    backup_retain_days = 180\<newline>  }\<newline>  backup_schedule {\<newline>    cron_schedule = "0 9 * * 1"\<newline>  }\<newline>  backup_config {\<newline>    include_volume_data = true\<newline>    include_secrets = true\<newline>    selected_applications {\<newline>      namespaced_names {\<newline>        name = "app1"\<newline>        namespace = "ns1"\<newline>      }\<newline>      namespaced_names {\<newline>        name = "app2"\<newline>        namespace = "ns2"\<newline>      }\<newline>    }\<newline>  }\<newline>}''
   in gkebackup_backupplan_full =
        t0 @ ''<%= ctx[:vars]['cluster_name'] %>'' @ t1
           @ ''<%= ctx[:test_env_vars]['project'] %>'' @ t2
           @ ''<%= ctx[:vars]['name'] %>'' @ t3
      \<and> CHR ''<'' \<notin> set (t0 @ t1 @ t2 @ t3)
      \<and> (\<forall>c. render c gkebackup_backupplan_full =
             Some (t0 @ to_s (vars c ''cluster_name'') @ t1
                      @ to_s (test_env_vars c ''project'') @ t2
                      @ to_s (vars c ''name'') @ t3))
      \<and> render \<lparr>vars = [''cluster_name'' \<mapsto> ''c1'', ''name'' \<mapsto> ''bp1''],
                 test_env_vars = [''project'' \<mapsto> ''proj'']\<rparr> gkebackup_backupplan_full =
             Some (t0 @ ''c1'' @ t1 @ ''proj'' @ t2 @ ''bp1'' @ t3)\<close>
  unfolding Let_def
  apply (intro conjI allI)
  subgoal by (rule gkebackup_backupplan_full_text)
  subgoal by simp
  subgoal
    by (simp add: render_def gkebackup_backupplan_full_text erb_scan_chars
          eval_code_cluster_name eval_code_project eval_code_name
          del: erb_scan.simps(3,4))
  subgoal
    by (simp add: render_def gkebackup_backupplan_full_text erb_scan_chars
          eval_code_cluster_name eval_code_project eval_code_name to_s_def
          del: erb_scan.simps(3,4))
  done

section \<open>Properties of the pagination\<close>

lemma appendSubnetworks_Inr:
  "map Inr ms = map generateTfSubnetwork xs \<Longrightarrow>
   appendSubnetworks xs (Slice a) = Inr (Slice (a @ ms))"
proof (induction xs arbitrary: a ms)
  case Nil
  then show ?case by simp
next
  case (Cons x xs)
  then obtain m ms' where ms: "ms = m # ms'" "generateTfSubnetwork x = Inr m"
    "map Inr ms' = map generateTfSubnetwork xs"
    by (cases ms) auto
  with Cons.IH [of ms' "a @ [m]"] show ?case
    by (simp add: appendSlice_def)
qed

lemma appendSubnetworks_Inr_D:
  "appendSubnetworks xs (Slice a) = Inr res \<Longrightarrow>
   \<exists>ms. res = Slice (a @ ms) \<and> map Inr ms = map generateTfSubnetwork xs"
proof (induction xs arbitrary: a)
  case Nil
  then show ?case by simp
next
  case (Cons x xs)
  then obtain m where m: "generateTfSubnetwork x = Inr m"
    and rest: "appendSubnetworks xs (Slice (a @ [m])) = Inr res"
    by (auto simp add: appendSlice_def split: sum.splits)
  from Cons.IH [OF rest] obtain ms where "res = Slice ((a @ [m]) @ ms)"
    "map Inr ms = map generateTfSubnetwork xs"
    by blast
  with m show ?case
    by (intro exI [of _ "m # ms"]) simp
qed

lemma appendSubnetworks_panic:
  "appendSubnetworks xs acc = Inl p \<Longrightarrow> p = NilDereference \<and> \<not> list_all noNilPointer xs"
proof (induction xs arbitrary: acc)
  case Nil
  then show ?case by simp
next
  case (Cons x xs)
  show ?case
  proof (cases "generateTfSubnetwork x")
    case (Inl q)
    with Cons.prems generateTfSubnetwork_panic [OF Inl] show ?thesis
      by simp
  next
    case (Inr m)
    with Cons.prems Cons.IH [of "appendSlice acc m"] show ?thesis
      by simp
  qed
qed

lemma collectPage_Inr:
  "map Inr ms = map generateTfSubnetwork (elems (Items p)) \<Longrightarrow>
   collectPage p (Slice a) = Inr (None, Slice (a @ ms))"
  by (simp add: collectPage_def appendSubnetworks_Inr)

lemma collectPage_Inr_D:
  "collectPage p (Slice a) = Inr (r, res) \<Longrightarrow>
   r = None \<and> (\<exists>ms. res = Slice (a @ ms) \<and> map Inr ms = map generateTfSubnetwork (elems (Items p)))"
  using appendSubnetworks_Inr_D [of "elems (Items p)" a]
  by (auto simp add: collectPage_def split: sum.splits)

lemma collectPage_panic:
  "collectPage p acc = Inl q \<Longrightarrow>
   q = NilDereference \<and> \<not> list_all noNilPointer (elems (Items p))"
  using appendSubnetworks_panic [of "elems (Items p)" acc q]
  by (auto simp add: collectPage_def split: sum.splits)

lemma pagesOf_append: "pagesOf (xs @ ys) = pagesOf xs @ pagesOf ys"
  by (induction xs rule: pagesOf.induct) simp_all

lemma failuresOf_append: "failuresOf (xs @ ys) = failuresOf xs @ failuresOf ys"
  by (induction xs rule: failuresOf.induct) simp_all

lemma failuresOf_empty: "failuresOf xs = [] \<Longrightarrow> (c, Inl e) \<notin> set xs"
  by (induction xs rule: failuresOf.induct) auto

lemma failuresOf_member: "(c, Inl e) \<in> set xs \<Longrightarrow> e \<in> set (failuresOf xs)"
  by (induction xs rule: failuresOf.induct) auto

lemma single_failure_is_last:
  assumes "failuresOf tr = [e]" and "snd (last tr) = Inl e" and "(c, Inl e') \<in> set tr"
  shows "last tr = (c, Inl e') \<and> e' = e"
proof -
  from assms(3) have ne: "tr \<noteq> []" by auto
  then have split: "tr = butlast tr @ [last tr]" by simp
  obtain c0 where l: "last tr = (c0, Inl e)"
    using assms(2) by (cases "last tr") auto
  have "failuresOf tr = failuresOf (butlast tr) @ failuresOf [last tr]"
    by (subst split) (rule failuresOf_append)
  with assms(1) l have "failuresOf (butlast tr) = []" by simp
  then have "(c, Inl e') \<notin> set (butlast tr)" by (rule failuresOf_empty)
  with assms(3) split have "(c, Inl e') = last tr"
    by (metis Un_iff empty_iff empty_set insert_iff list.simps(15) set_append)
  with l show ?thesis by simp
qed

lemma itemsInOrder_Cons:
  "itemsInOrder (p # ps) = map generateTfSubnetwork (elems (Items p)) @ itemsInOrder ps"
  by (simp add: itemsInOrder_def)

lemma itemsInOrder_Nil: "itemsInOrder [] = []"
  by (simp add: itemsInOrder_def)

lemma map_Inr_append_D:
  "map Inr ms = xs @ ys \<Longrightarrow>
   \<exists>ms1 ms2. ms = ms1 @ ms2 \<and> map Inr ms1 = xs \<and> map Inr ms2 = ys"
  by (metis map_eq_append_conv)

text \<open>Pages without a nil pointer are the pages whose items all reshape.\<close>

lemma reshaped_list:
  "list_all noNilPointer xs \<Longrightarrow> \<exists>ms. map Inr ms = map generateTfSubnetwork xs"
proof (induction xs)
  case Nil
  then show ?case by simp
next
  case (Cons x xs)
  then obtain ms where ms: "map Inr ms = map generateTfSubnetwork xs"
    by auto
  from Cons.prems obtain m where "generateTfSubnetwork x = Inr m"
    using generateTfSubnetwork_noNilPointer [of x] by auto
  with ms show ?case
    by (intro exI [of _ "m # ms"]) simp
qed

lemma reshaped_pages: "noNilPointers ps \<Longrightarrow> \<exists>ms. map Inr ms = itemsInOrder ps"
proof (induction ps)
  case Nil
  then show ?case by (simp add: itemsInOrder_Nil)
next
  case (Cons p ps)
  then obtain ms where ms: "map Inr ms = itemsInOrder ps"
    by (auto simp add: noNilPointers_def)
  from Cons.prems obtain ms0 where "map Inr ms0 = map generateTfSubnetwork (elems (Items p))"
    using reshaped_list [of "elems (Items p)"] by (auto simp add: noNilPointers_def)
  with ms show ?case
    by (intro exI [of _ "ms0 @ ms"]) (simp add: itemsInOrder_Cons)
qed

lemma recorded_apply:
  "recorded srv c (w, tr) = (case srv c w of (r, w') \<Rightarrow> (r, (w', tr @ [(c, r)])))"
  by (simp add: recorded_def)

text \<open>
  What an observed run of the pagination loop leaves behind: at least one new exchange,
  every call equal to the first one but for its page token, and then either a panic on a
  page that holds a nil pointer, or the pages collected in order, or one failure, which
  is the last exchange and the error returned.
\<close>

lemma Pages_recorded:
  "Pages fuel (recorded srv) c collectPage (Slice a) (w, tr) = Some (r, (w', tr')) \<Longrightarrow>
   \<exists>new. tr' = tr @ new \<and> new \<noteq> []
     \<and> (\<forall>x \<in> set new. call_userAgent (fst x) = call_userAgent c
            \<and> call_project (fst x) = call_project c
            \<and> urlParam_filter (fst x) = urlParam_filter c)
     \<and> (case r of
           Inl p \<Rightarrow> p = NilDereference \<and> failuresOf new = []
         | Inr (None, acc') \<Rightarrow>
             failuresOf new = []
             \<and> (\<exists>ms. acc' = Slice (a @ ms) \<and> map Inr ms = itemsInOrder (pagesOf new))
         | Inr (Some e, acc') \<Rightarrow> failuresOf new = [e] \<and> snd (last new) = Inl e)"
proof (induction fuel arbitrary: c a w tr)
  case 0
  then show ?case by simp
next
  case (Suc fuel)
  obtain ans w1 where srv: "srv c w = (ans, w1)"
    by (cases "srv c w")
  show ?case
  proof (cases ans)
    case (Inl err)
    with Suc.prems srv have "tr' = tr @ [(c, Inl err)]" "r = Inr (Some err, Slice a)"
      by (auto simp add: recorded_apply)
    then show ?thesis
      by (intro exI [of _ "[(c, Inl err)]"]) simp
  next
    case (Inr x)
    show ?thesis
    proof (cases "collectPage x (Slice a)")
      case panic: (Inl p)
      with Suc.prems srv Inr have "tr' = tr @ [(c, Inr x)]" "r = Inl p"
        by (auto simp add: recorded_apply)
      with collectPage_panic [OF panic] show ?thesis
        by (intro exI [of _ "[(c, Inr x)]"]) simp
    next
      case ok: (Inr res)
      obtain e acc where res: "res = (e, acc)"
        by (cases res)
      from collectPage_Inr_D [OF ok [unfolded res]] obtain ms where e: "e = None"
        and acc: "acc = Slice (a @ ms)"
        and ms: "map Inr ms = map generateTfSubnetwork (elems (Items x))"
        by blast
      show ?thesis
      proof (cases "NextPageToken x = []")
        case True
        with Suc.prems srv Inr ok res e have "tr' = tr @ [(c, Inr x)]" "r = Inr (None, acc)"
          by (auto simp add: recorded_apply)
        with acc ms show ?thesis
          by (intro exI [of _ "[(c, Inr x)]"]) (simp add: itemsInOrder_Cons itemsInOrder_Nil)
      next
        case False
        with Suc.prems srv Inr ok res e acc have run:
          "Pages fuel (recorded srv) (PageToken c (NextPageToken x)) collectPage
             (Slice (a @ ms)) (w1, tr @ [(c, Inr x)]) = Some (r, (w', tr'))"
          by (simp add: recorded_apply)
        from Suc.IH [OF run] obtain new where new:
          "tr' = (tr @ [(c, Inr x)]) @ new" "new \<noteq> []"
          "\<forall>y \<in> set new. call_userAgent (fst y) = call_userAgent (PageToken c (NextPageToken x))
              \<and> call_project (fst y) = call_project (PageToken c (NextPageToken x))
              \<and> urlParam_filter (fst y) = urlParam_filter (PageToken c (NextPageToken x))"
          "case r of
             Inl p \<Rightarrow> p = NilDereference \<and> failuresOf new = []
           | Inr (None, acc') \<Rightarrow>
               failuresOf new = []
               \<and> (\<exists>ms'. acc' = Slice ((a @ ms) @ ms') \<and> map Inr ms' = itemsInOrder (pagesOf new))
           | Inr (Some e, acc') \<Rightarrow> failuresOf new = [e] \<and> snd (last new) = Inl e"
          by blast
        have outcome: "case r of
             Inl p \<Rightarrow> p = NilDereference \<and> failuresOf ((c, Inr x) # new) = []
           | Inr (None, acc') \<Rightarrow>
               failuresOf ((c, Inr x) # new) = []
               \<and> (\<exists>ms'. acc' = Slice (a @ ms')
                     \<and> map Inr ms' = itemsInOrder (pagesOf ((c, Inr x) # new)))
           | Inr (Some e, acc') \<Rightarrow>
               failuresOf ((c, Inr x) # new) = [e] \<and> snd (last ((c, Inr x) # new)) = Inl e"
        proof (cases r)
          case (Inl p)
          with new(4) show ?thesis by simp
        next
          case (Inr res')
          obtain e' acc' where res': "res' = (e', acc')"
            by (cases res')
          show ?thesis
          proof (cases e')
            case None
            with new(4) Inr res' obtain ms' where "failuresOf new = []"
              "acc' = Slice ((a @ ms) @ ms')" "map Inr ms' = itemsInOrder (pagesOf new)"
              by auto
            with Inr res' None ms show ?thesis
              by (auto simp add: itemsInOrder_Cons intro!: exI [of _ "ms @ ms'"])
          next
            case (Some err)
            with new(2,4) Inr res' show ?thesis by simp
          qed
        qed
        show ?thesis
          using new(1,2,3) outcome
          by (intro exI [of _ "(c, Inr x) # new"]) (simp add: PageToken_def)
      qed
    qed
  qed
qed

text \<open>Recording the exchanges changes nothing else about a run of the loop.\<close>

lemma Pages_recorded_plain:
  "map_option (\<lambda>(r, (w', tr')). (r, w')) (Pages fuel (recorded srv) c f s (w, tr)) =
   Pages fuel srv c f s w"
proof (induction fuel arbitrary: c s w tr)
  case 0
  then show ?case by simp
next
  case (Suc fuel)
  show ?case
    by (simp add: recorded_apply Suc.IH split: prod.splits sum.splits option.splits)
qed

text \<open>
  A scripted service: a well-paged script of pages without nil pointers is collected and
  the loop returns; a script of such pages that all name a next page, followed by a
  failure, makes the loop return that failure. Nothing of the script after that is used.
\<close>

lemma Pages_scripted:
  "wellPaged ps \<Longrightarrow> length ps \<le> fuel \<Longrightarrow> map Inr ms = itemsInOrder ps \<Longrightarrow>
   Pages fuel scripted c collectPage (Slice a) (map Inr ps @ rest) =
     Some (Inr (None, Slice (a @ ms)), rest)"
proof (induction ps arbitrary: fuel c a ms rule: wellPaged.induct)
  case 1
  then show ?case by simp
next
  case (2 p)
  then obtain n where "fuel = Suc n" by (cases fuel) auto
  with 2 show ?case
    by (simp add: itemsInOrder_Cons itemsInOrder_Nil collectPage_Inr)
next
  case (3 p q ps)
  then obtain n where n: "fuel = Suc n" by (cases fuel) auto
  from "3.prems"(3) obtain ms1 ms2 where ms: "ms = ms1 @ ms2"
    "map Inr ms1 = map generateTfSubnetwork (elems (Items p))"
    "map Inr ms2 = itemsInOrder (q # ps)"
    unfolding itemsInOrder_Cons [of p] by (blast dest: map_Inr_append_D)
  from 3 n ms have "Pages n scripted (PageToken c (NextPageToken p)) collectPage
       (Slice (a @ ms1)) (map Inr (q # ps) @ rest) =
     Some (Inr (None, Slice ((a @ ms1) @ ms2)), rest)"
    by (intro "3.IH") simp_all
  with 3 n ms show ?case
    by (simp add: collectPage_Inr)
qed

lemma Pages_scripted_failure:
  "allContinue ps \<Longrightarrow> length ps < fuel \<Longrightarrow> map Inr ms = itemsInOrder ps \<Longrightarrow>
   Pages fuel scripted c collectPage (Slice a) (map Inr ps @ Inl e # rest) =
     Some (Inr (Some e, Slice (a @ ms)), rest)"
proof (induction ps arbitrary: fuel c a ms)
  case Nil
  then obtain n where "fuel = Suc n" by (cases fuel) auto
  with Nil show ?case
    by (simp add: itemsInOrder_Nil)
next
  case (Cons p ps)
  then obtain n where n: "fuel = Suc n" by (cases fuel) auto
  from Cons.prems(3) obtain ms1 ms2 where ms: "ms = ms1 @ ms2"
    "map Inr ms1 = map generateTfSubnetwork (elems (Items p))"
    "map Inr ms2 = itemsInOrder ps"
    unfolding itemsInOrder_Cons [of p] by (blast dest: map_Inr_append_D)
  from Cons.prems n ms have "Pages n scripted (PageToken c (NextPageToken p)) collectPage
       (Slice (a @ ms1)) (map Inr ps @ Inl e # rest) =
     Some (Inr (Some e, Slice ((a @ ms1) @ ms2)), rest)"
    by (intro Cons.IH) (simp_all add: allContinue_def)
  with Cons.prems n ms show ?case
    by (simp add: collectPage_Inr allContinue_def)
qed

section \<open>Properties of the read\<close>

lemma diag_FromErr_not_Nil: "diag_FromErr e \<noteq> []"
  by (simp add: diag_FromErr_def)

lemma read_userAgent_fails:
  "generateUserAgentString prov d (userAgent config) = Inl e \<Longrightarrow>
   dataSourceGoogleComputeUsableSubnetworksRead fuel prov d config w =
     Some (Inr (diag_FromErr e, d), w)"
  by (simp add: dataSourceGoogleComputeUsableSubnetworksRead_def)

lemma read_project_fails:
  "generateUserAgentString prov d (userAgent config) = Inr ua \<Longrightarrow>
   getProject prov d config = Inl e \<Longrightarrow>
   dataSourceGoogleComputeUsableSubnetworksRead fuel prov d config w =
     Some (Inr (diag_FromErr e, d), w)"
  by (simp add: dataSourceGoogleComputeUsableSubnetworksRead_def)

lemma read_panics:
  "generateUserAgentString prov d (userAgent config) = Inr ua \<Longrightarrow>
   getProject prov d config = Inr project \<Longrightarrow>
   attrs d ''filter'' = Some (IMaps xs) \<Longrightarrow> elems xs \<noteq> [] \<Longrightarrow>
   dataSourceGoogleComputeUsableSubnetworksRead fuel prov d config w =
     Some (Inl InterfaceConversion, w)"
  by (simp add: dataSourceGoogleComputeUsableSubnetworksRead_def GetOk_def)

text \<open>The ID of a resource data whose filter attribute does not make the lookup panic.\<close>

lemma computeUsableSubnetworksListId_eq:
  "(\<forall>xs. attrs d ''filter'' = Some (IMaps xs) \<longrightarrow> elems xs = []) \<Longrightarrow>
   computeUsableSubnetworksListId project d =
     Inr (project @ ''-'' @ (case filterParam (attrs d ''filter'') of None \<Rightarrow> ''ALL'' | Some f \<Rightarrow> f))"
  by (cases "attrs d ''filter''"; cases "the (attrs d ''filter'')")
     (auto simp add: computeUsableSubnetworksListId_def GetOk_def fmt_Sprintf_dash_def)

text \<open>
  Once the user agent and the project are there and the filter lookup does not panic, the
  read is the pagination of one request, followed by the writes.
\<close>

lemma read_pages:
  assumes "generateUserAgentString prov d (userAgent config) = Inr ua"
    and "getProject prov d config = Inr project"
    and "\<forall>xs. attrs d ''filter'' = Some (IMaps xs) \<longrightarrow> elems xs = []"
  shows "dataSourceGoogleComputeUsableSubnetworksRead fuel prov d config w =
     (case Pages fuel (Do prov)
             \<lparr>call_userAgent = ua, call_project = project,
              urlParam_filter = filterParam (attrs d ''filter''), urlParam_pageToken = None\<rparr>
             collectPage (Slice []) w of
        None \<Rightarrow> None
      | Some (Inl p, w') \<Rightarrow> Some (Inl p, w')
      | Some (Inr (Some err, acc), w') \<Rightarrow> Some (Inr (diag_FromErr err, d), w')
      | Some (Inr (None, acc), w') \<Rightarrow>
          (case writeField d ''subnetworks'' (IMaps acc) of
             Some err \<Rightarrow>
               Some (Inr (diag_FromErr (fmt_Errorf ''error setting subnetworks: '' err), d), w')
           | None \<Rightarrow>
               (case writeField d ''project'' (IString project) of
                  Some err \<Rightarrow>
                    Some (Inr (diag_FromErr (fmt_Errorf ''error setting project: '' err),
                               d\<lparr>attrs := (attrs d)(''subnetworks'' \<mapsto> IMaps acc)\<rparr>), w')
                | None \<Rightarrow>
                    Some (Inr ([], d\<lparr>attrs := (attrs d)(''subnetworks'' \<mapsto> IMaps acc,
                                                      ''project'' \<mapsto> IString project),
                                    Id := project @ ''-'' @
                                      (case filterParam (attrs d ''filter'') of
                                         None \<Rightarrow> ''ALL'' | Some f \<Rightarrow> f)\<rparr>), w'))))"
proof -
  have req: "(case GetOk d ''filter'' of
              Some filter0 \<Rightarrow>
                (case assertString filter0 of
                   Inl p \<Rightarrow> Inl p
                 | Inr f \<Rightarrow> Inr (Filter (ListUsable ua project) f))
            | None \<Rightarrow> Inr (ListUsable ua project)) =
        Inr \<lparr>call_userAgent = ua, call_project = project,
             urlParam_filter = filterParam (attrs d ''filter''), urlParam_pageToken = None\<rparr>"
    using assms(3)
    by (cases "attrs d ''filter''"; cases "the (attrs d ''filter'')")
       (auto simp add: GetOk_def Filter_def ListUsable_def)
  have ident: "computeUsableSubnetworksListId project
          (d\<lparr>attrs := (attrs d)(''subnetworks'' \<mapsto> v, ''project'' \<mapsto> v')\<rparr>) =
        Inr (project @ ''-'' @
          (case filterParam (attrs d ''filter'') of None \<Rightarrow> ''ALL'' | Some f \<Rightarrow> f))" for v v'
    using assms(3) by (subst computeUsableSubnetworksListId_eq) simp_all
  show ?thesis
    unfolding dataSourceGoogleComputeUsableSubnetworksRead_def
    by (simp add: assms(1,2) req make0_def Set_attr_def SetId_def ident
          split: option.splits prod.splits sum.splits)
qed

lemma observed_simps:
  "generateUserAgentString (observed prov) = generateUserAgentString prov"
  "getProject (observed prov) = getProject prov"
  "Do (observed prov) = recorded (Do prov)"
  by (simp_all add: observed_def)

text \<open>
  The ways an observed read returns: the user agent fails, the project fails, the filter
  lookup panics, or one request is paged through; then a page holds a nil pointer and the
  read panics, or an exchange fails, or the pages are collected and the writes follow.
\<close>

lemma read_observed_cases:
  assumes run: "dataSourceGoogleComputeUsableSubnetworksRead fuel (observed prov) d config (w, []) =
                  Some (out, (w', tr))"
  obtains
    (ua_fails) e where "generateUserAgentString prov d (userAgent config) = Inl e"
      "out = Inr (diag_FromErr e, d)" "tr = []" "w' = w"
  | (project_fails) ua e where "generateUserAgentString prov d (userAgent config) = Inr ua"
      "getProject prov d config = Inl e" "out = Inr (diag_FromErr e, d)" "tr = []" "w' = w"
  | (panics) ua project xs where "generateUserAgentString prov d (userAgent config) = Inr ua"
      "getProject prov d config = Inr project" "attrs d ''filter'' = Some (IMaps xs)"
      "elems xs \<noteq> []" "out = Inl InterfaceConversion" "tr = []" "w' = w"
  | (nil_pointer) ua project where "generateUserAgentString prov d (userAgent config) = Inr ua"
      "getProject prov d config = Inr project"
      "\<forall>xs. attrs d ''filter'' = Some (IMaps xs) \<longrightarrow> elems xs = []"
      "tr \<noteq> []"
      "\<forall>x \<in> set tr. call_userAgent (fst x) = ua \<and> call_project (fst x) = project
          \<and> urlParam_filter (fst x) = filterParam (attrs d ''filter'')"
      "failuresOf tr = []"
      "out = Inl NilDereference"
  | (exchange_fails) ua project e where
      "generateUserAgentString prov d (userAgent config) = Inr ua"
      "getProject prov d config = Inr project"
      "\<forall>xs. attrs d ''filter'' = Some (IMaps xs) \<longrightarrow> elems xs = []"
      "tr \<noteq> []"
      "\<forall>x \<in> set tr. call_userAgent (fst x) = ua \<and> call_project (fst x) = project
          \<and> urlParam_filter (fst x) = filterParam (attrs d ''filter'')"
      "failuresOf tr = [e]" "snd (last tr) = Inl e"
      "out = Inr (diag_FromErr e, d)"
  | (collected) ua project ms where
      "generateUserAgentString prov d (userAgent config) = Inr ua"
      "getProject prov d config = Inr project"
      "\<forall>xs. attrs d ''filter'' = Some (IMaps xs) \<longrightarrow> elems xs = []"
      "tr \<noteq> []"
      "\<forall>x \<in> set tr. call_userAgent (fst x) = ua \<and> call_project (fst x) = project
          \<and> urlParam_filter (fst x) = filterParam (attrs d ''filter'')"
      "failuresOf tr = []"
      "map Inr ms = itemsInOrder (pagesOf tr)"
      "out =
        (case writeField d ''subnetworks'' (IMaps (Slice ms)) of
           Some err \<Rightarrow>
             Inr (diag_FromErr (fmt_Errorf ''error setting subnetworks: '' err), d)
         | None \<Rightarrow>
             (case writeField d ''project'' (IString project) of
                Some err \<Rightarrow>
                  Inr (diag_FromErr (fmt_Errorf ''error setting project: '' err),
                       d\<lparr>attrs := (attrs d)(''subnetworks'' \<mapsto> IMaps (Slice ms))\<rparr>)
              | None \<Rightarrow>
                  Inr ([], d\<lparr>attrs := (attrs d)(''subnetworks'' \<mapsto> IMaps (Slice ms),
                                                 ''project'' \<mapsto> IString project),
                             Id := project @ ''-'' @
                               (case filterParam (attrs d ''filter'') of
                                  None \<Rightarrow> ''ALL'' | Some f \<Rightarrow> f)\<rparr>)))"
proof (cases "generateUserAgentString prov d (userAgent config)")
  case (Inl e)
  with run ua_fails show ?thesis
    by (simp add: read_userAgent_fails observed_simps)
next
  case ua: (Inr ua)
  show ?thesis
  proof (cases "getProject prov d config")
    case (Inl e)
    with run ua project_fails show ?thesis
      by (simp add: read_project_fails [where ua = ua] observed_simps)
  next
    case project: (Inr project)
    show ?thesis
    proof (cases "\<forall>xs. attrs d ''filter'' = Some (IMaps xs) \<longrightarrow> elems xs = []")
      case False
      then obtain xs where "attrs d ''filter'' = Some (IMaps xs)" "elems xs \<noteq> []"
        by blast
      with run ua project panics show ?thesis
        by (simp add: read_panics [where ua = ua and project = project] observed_simps)
    next
      case True
      let ?c = "\<lparr>call_userAgent = ua, call_project = project,
                 urlParam_filter = filterParam (attrs d ''filter''), urlParam_pageToken = None\<rparr>"
      from run obtain r where
        pages: "Pages fuel (recorded (Do prov)) ?c collectPage (Slice []) (w, []) =
                  Some (r, (w', tr))"
        by (simp add: read_pages [where ua = ua and project = project] ua project True
              observed_simps split: option.splits prod.splits sum.splits)
      from Pages_recorded [OF pages] have tr: "tr \<noteq> []"
        and calls: "\<forall>x \<in> set tr. call_userAgent (fst x) = ua \<and> call_project (fst x) = project
          \<and> urlParam_filter (fst x) = filterParam (attrs d ''filter'')"
        and outcome: "case r of
           Inl p \<Rightarrow> p = NilDereference \<and> failuresOf tr = []
         | Inr (None, acc') \<Rightarrow>
             failuresOf tr = []
             \<and> (\<exists>ms. acc' = Slice ([] @ ms) \<and> map Inr ms = itemsInOrder (pagesOf tr))
         | Inr (Some e, acc') \<Rightarrow> failuresOf tr = [e] \<and> snd (last tr) = Inl e"
        by auto
      show ?thesis
      proof (cases r)
        case (Inl p)
        with outcome have "p = NilDereference" "failuresOf tr = []"
          by simp_all
        with run pages Inl show ?thesis
          by (intro nil_pointer [OF ua project True tr calls])
             (simp_all add: read_pages [where ua = ua and project = project] ua project True
                observed_simps)
      next
        case (Inr res)
        obtain e acc where res: "res = (e, acc)"
          by (cases res)
        show ?thesis
        proof (cases e)
          case None
          with outcome Inr res obtain ms where nofail: "failuresOf tr = []"
            and acc: "acc = Slice ms" and ms: "map Inr ms = itemsInOrder (pagesOf tr)"
            by auto
          from run pages Inr res None acc show ?thesis
            by (intro collected [OF ua project True tr calls nofail ms])
               (simp add: read_pages [where ua = ua and project = project] ua project True
                  observed_simps split: option.splits)
        next
          case (Some err)
          with outcome Inr res have fail: "failuresOf tr = [err]" "snd (last tr) = Inl err"
            by simp_all
          from run pages Inr res Some show ?thesis
            by (intro exchange_fails [OF ua project True tr calls fail])
               (simp add: read_pages [where ua = ua and project = project] ua project True
                  observed_simps)
        qed
      qed
    qed
  qed
qed

text \<open>Recording the exchanges changes nothing else about a read.\<close>

lemma read_observed_plain:
  "map_option (\<lambda>(out, (w', tr')). (out, w'))
     (dataSourceGoogleComputeUsableSubnetworksRead fuel (observed prov) d config (w, tr)) =
   dataSourceGoogleComputeUsableSubnetworksRead fuel prov d config w"
proof (cases "generateUserAgentString prov d (userAgent config)")
  case (Inl e)
  then show ?thesis
    by (simp add: read_userAgent_fails observed_simps)
next
  case ua: (Inr ua)
  show ?thesis
  proof (cases "getProject prov d config")
    case (Inl e)
    with ua show ?thesis
      by (simp add: read_project_fails [where ua = ua] observed_simps)
  next
    case project: (Inr project)
    show ?thesis
    proof (cases "\<forall>xs. attrs d ''filter'' = Some (IMaps xs) \<longrightarrow> elems xs = []")
      case False
      then obtain xs where "attrs d ''filter'' = Some (IMaps xs)" "elems xs \<noteq> []"
        by blast
      with ua project show ?thesis
        by (simp add: read_panics [where ua = ua and project = project] observed_simps)
    next
      case True
      have pages: "Pages fuel (Do prov) c collectPage s w =
          (case Pages fuel (recorded (Do prov)) c collectPage s (w, tr) of
             None \<Rightarrow> None | Some (r, (w', tr')) \<Rightarrow> Some (r, w'))" for c s
        using Pages_recorded_plain [of fuel "Do prov" c collectPage s w tr]
        by (auto split: option.splits)
      show ?thesis
        by (simp add: read_pages [where ua = ua and project = project] ua project True
              observed_simps pages split: option.splits prod.splits sum.splits)
    qed
  qed
qed

text \<open>Reads from a scripted service that returns pages, then fails or ends.\<close>

lemma read_scripted_failure:
  assumes ua: "g d (userAgent config) = Inr ua" and project: "gp d config = Inr project"
    and fl: "attrs d ''filter'' = None \<or> (\<exists>s. attrs d ''filter'' = Some (IString s))"
    and ps: "allContinue ps" "noNilPointers ps" "length ps < fuel"
  shows "dataSourceGoogleComputeUsableSubnetworksRead fuel
           \<lparr>generateUserAgentString = g, getProject = gp, Do = scripted\<rparr> d config
           (map Inr ps @ Inl e # rest) = Some (Inr (diag_FromErr e, d), rest)"
proof -
  from fl have nopanic: "\<forall>xs. attrs d ''filter'' = Some (IMaps xs) \<longrightarrow> elems xs = []"
    by auto
  from ps(2) obtain ms where ms: "map Inr ms = itemsInOrder ps"
    using reshaped_pages by blast
  show ?thesis
    using ua project
    by (subst read_pages [where ua = ua and project = project])
       (simp_all add: nopanic Pages_scripted_failure [OF ps(1) ps(3) ms])
qed

lemma read_scripted_collected:
  assumes ua: "g d (userAgent config) = Inr ua" and project: "gp d config = Inr project"
    and fl: "attrs d ''filter'' = None \<or> (\<exists>s. attrs d ''filter'' = Some (IString s))"
    and ps: "wellPaged ps" "length ps \<le> fuel" and ms: "map Inr ms = itemsInOrder ps"
  shows "dataSourceGoogleComputeUsableSubnetworksRead fuel
           \<lparr>generateUserAgentString = g, getProject = gp, Do = scripted\<rparr> d config
           (map Inr ps @ rest) =
     (case writeField d ''subnetworks'' (IMaps (Slice ms)) of
        Some err \<Rightarrow>
          Some (Inr (diag_FromErr (fmt_Errorf ''error setting subnetworks: '' err), d), rest)
      | None \<Rightarrow>
          (case writeField d ''project'' (IString project) of
             Some err \<Rightarrow>
               Some (Inr (diag_FromErr (fmt_Errorf ''error setting project: '' err),
                          d\<lparr>attrs := (attrs d)(''subnetworks'' \<mapsto> IMaps (Slice ms))\<rparr>), rest)
           | None \<Rightarrow>
               Some (Inr ([], d\<lparr>attrs := (attrs d)(''subnetworks'' \<mapsto> IMaps (Slice ms),
                                                 ''project'' \<mapsto> IString project),
                               Id := project @ ''-'' @
                                 (case filterParam (attrs d ''filter'') of
                                    None \<Rightarrow> ''ALL'' | Some f \<Rightarrow> f)\<rparr>), rest)))"
proof -
  from fl have nopanic: "\<forall>xs. attrs d ''filter'' = Some (IMaps xs) \<longrightarrow> elems xs = []"
    by auto
  show ?thesis
    using ua project
    by (subst read_pages [where ua = ua and project = project])
       (simp_all add: nopanic Pages_scripted [OF ps ms])
qed

section \<open>Reads of the fixtures\<close>

lemmas fixture_defs =
  pageA_def pageB_def callFor_def okProvider_def fixtureProvider_def fixtureConfig_def
  dataWithFilter_def dataRejecting_def acceptAll_def rejectKey_def pageWith_def written_def
  subnetworkWith_def tfSubnetworkWith_def tfRangeA_def rangeA_def

lemmas read_defs =
  dataSourceGoogleComputeUsableSubnetworksRead_def observed_def recorded_apply collectPage_def
  generateTfSubnetwork_def generateTfSecondaryIpRanges_def generateTfSecondaryIpRange_def
  make0_def appendSlice_def GetOk_def Set_attr_def SetId_def computeUsableSubnetworksListId_def
  fmt_Sprintf_dash_def fmt_Errorf_def ListUsable_def Filter_def PageToken_def

lemma fixture_pages:
  "wellPaged [pageA, pageB]" "wellPaged [pageB]" "allContinue [pageA]"
  "noNilPointers [pageA, pageB]" "noNilPointers [pageA]" "noNilPointers [pageB]"
  "itemsInOrder [pageA, pageB] =
     [Inr (tfSubnetworkWith ''a'' []), Inr (tfSubnetworkWith ''b'' [tfRangeA])]"
  "itemsInOrder [pageB] = [Inr (tfSubnetworkWith ''b'' [tfRangeA])]"
  by (simp_all add: fixture_defs allContinue_def noNilPointers_def noNilPointer_def
        itemsInOrder_def generateTfSubnetwork_def generateTfSecondaryIpRanges_def
        generateTfSecondaryIpRange_def make0_def appendSlice_def)

lemma run_two_pages:
  "dataSourceGoogleComputeUsableSubnetworksRead (Suc (Suc 0)) (observed okProvider)
     (dataWithFilter (Some (IString ''name=foo''))) fixtureConfig ([Inr pageA, Inr pageB], []) =
   Some (Inr ([], written (dataWithFilter (Some (IString ''name=foo'')))
                    [tfSubnetworkWith ''a'' [], tfSubnetworkWith ''b'' [tfRangeA]]
                    ''p-name=foo''),
         ([], [(callFor (Some ''name=foo'') None, Inr pageA),
               (callFor (Some ''name=foo'') (Some ''t''), Inr pageB)]))"
  by (simp add: read_defs fixture_defs)

lemma run_two_pages_plain:
  "dataSourceGoogleComputeUsableSubnetworksRead (Suc (Suc 0)) okProvider
     (dataWithFilter (Some (IString ''name=foo''))) fixtureConfig [Inr pageA, Inr pageB] =
   Some (Inr ([], written (dataWithFilter (Some (IString ''name=foo'')))
                    [tfSubnetworkWith ''a'' [], tfSubnetworkWith ''b'' [tfRangeA]]
                    ''p-name=foo''), [])"
  by (simp add: read_defs fixture_defs)


lemma run_two_pages_unset_observed:
  "dataSourceGoogleComputeUsableSubnetworksRead (Suc (Suc 0)) (observed okProvider)
     (dataWithFilter None) fixtureConfig ([Inr pageA, Inr pageB], []) =
   Some (Inr ([], written (dataWithFilter None)
                    [tfSubnetworkWith ''a'' [], tfSubnetworkWith ''b'' [tfRangeA]] ''p-ALL''),
         ([], [(callFor None None, Inr pageA), (callFor None (Some ''t''), Inr pageB)]))"
  by (simp add: read_defs fixture_defs)

lemma run_empty_filter:
  "dataSourceGoogleComputeUsableSubnetworksRead (Suc 0) (observed okProvider)
     (dataWithFilter (Some (IString []))) fixtureConfig ([Inr pageB], []) =
   Some (Inr ([], written (dataWithFilter (Some (IString [])))
                    [tfSubnetworkWith ''b'' [tfRangeA]] ''p-ALL''),
         ([], [(callFor None None, Inr pageB)]))"
  by (simp add: read_defs fixture_defs)

lemma run_failing_page:
  "dataSourceGoogleComputeUsableSubnetworksRead (Suc (Suc 0)) (observed okProvider)
     (dataWithFilter None) fixtureConfig ([Inr pageA, Inl (Err ''quota''), Inr pageB], []) =
   Some (Inr (diag_FromErr (Err ''quota''), dataWithFilter None),
         ([Inr pageB], [(callFor None None, Inr pageA),
               (callFor None (Some ''t''), Inl (Err ''quota''))]))"
  by (simp add: read_defs fixture_defs)

lemma run_failing_page_plain:
  "dataSourceGoogleComputeUsableSubnetworksRead (Suc (Suc 0)) okProvider
     (dataWithFilter None) fixtureConfig [Inr pageA, Inl (Err ''quota''), Inr pageB] =
   Some (Inr (diag_FromErr (Err ''quota''), dataWithFilter None), [Inr pageB])"
  by (simp add: read_defs fixture_defs)

lemma run_first_call_fails:
  "dataSourceGoogleComputeUsableSubnetworksRead (Suc 0) okProvider
     (dataWithFilter None) fixtureConfig [Inl (Err ''down'')] =
   Some (Inr (diag_FromErr (Err ''down''), dataWithFilter None), [])"
  by (simp add: read_defs fixture_defs)

lemma run_rejecting_subnetworks:
  "dataSourceGoogleComputeUsableSubnetworksRead (Suc 0) okProvider
     (dataRejecting ''subnetworks'') fixtureConfig [Inr pageB] =
   Some (Inr (diag_FromErr (Err ''error setting subnetworks: boom''),
              dataRejecting ''subnetworks''), [])"
  by (simp add: read_defs fixture_defs)

lemma run_rejecting_project:
  "dataSourceGoogleComputeUsableSubnetworksRead (Suc 0) okProvider
     (dataRejecting ''project'') fixtureConfig [Inr pageB] =
   Some (Inr (diag_FromErr (Err ''error setting project: boom''),
              (dataRejecting ''project'')
                \<lparr>attrs := (attrs (dataRejecting ''project''))(''subnetworks'' \<mapsto>
                   IMaps (Slice [tfSubnetworkWith ''b'' [tfRangeA]]))\<rparr>), [])"
  by (simp add: read_defs fixture_defs)


section \<open>The errors of a read\<close>

text \<open>
  C3, as the code has it. A failure of the user agent or of the project resolution is
  returned at once as the diagnostics of that very error, before any exchange with the
  service. When the service delivers pages and then fails, the read returns the
  diagnostics of that very error, with the resource data unchanged and without asking
  the service again; for any service, a failing exchange is the last exchange of the
  read. A failure to set an attribute is returned at once too, but not unchanged: its
  message is prefixed with \<open>error setting subnetworks: \<close> or \<open>error setting project: \<close>.
\<close>

theorem read_errors_propagated:
  "(generateUserAgentString prov d (userAgent config) = Inl e \<longrightarrow>
      dataSourceGoogleComputeUsableSubnetworksRead fuel prov d config w =
        Some (Inr (diag_FromErr e, d), w))
   \<and> (generateUserAgentString prov d (userAgent config) = Inr ua
        \<and> getProject prov d config = Inl e \<longrightarrow>
      dataSourceGoogleComputeUsableSubnetworksRead fuel prov d config w =
        Some (Inr (diag_FromErr e, d), w))
   \<and> (g d (userAgent config) = Inr ua \<and> gp d config = Inr project
        \<and> (attrs d ''filter'' = None \<or> (\<exists>s. attrs d ''filter'' = Some (IString s)))
        \<and> allContinue ps \<and> noNilPointers ps \<and> length ps < fuel \<longrightarrow>
      dataSourceGoogleComputeUsableSubnetworksRead fuel
        \<lparr>generateUserAgentString = g, getProject = gp, Do = scripted\<rparr> d config
        (map Inr ps @ Inl e # rest) = Some (Inr (diag_FromErr e, d), rest))
   \<and> (g d (userAgent config) = Inr ua \<and> gp d config = Inr project
        \<and> (attrs d ''filter'' = None \<or> (\<exists>s. attrs d ''filter'' = Some (IString s)))
        \<and> wellPaged ps \<and> length ps \<le> fuel \<and> map Inr ms = itemsInOrder ps
        \<and> writeField d ''subnetworks'' (IMaps (Slice ms)) = Some e \<longrightarrow>
      dataSourceGoogleComputeUsableSubnetworksRead fuel
        \<lparr>generateUserAgentString = g, getProject = gp, Do = scripted\<rparr> d config
        (map Inr ps @ rest) =
        Some (Inr (diag_FromErr (Err (''error setting subnetworks: '' @ Error e)), d), rest))
   \<and> (g d (userAgent config) = Inr ua \<and> gp d config = Inr project
        \<and> (attrs d ''filter'' = None \<or> (\<exists>s. attrs d ''filter'' = Some (IString s)))
        \<and> wellPaged ps \<and> length ps \<le> fuel \<and> map Inr ms = itemsInOrder ps
        \<and> writeField d ''subnetworks'' (IMaps (Slice ms)) = None
        \<and> writeField d ''project'' (IString project) = Some e \<longrightarrow>
      dataSourceGoogleComputeUsableSubnetworksRead fuel
        \<lparr>generateUserAgentString = g, getProject = gp, Do = scripted\<rparr> d config
        (map Inr ps @ rest) =
        Some (Inr (diag_FromErr (Err (''error setting project: '' @ Error e)),
                   d\<lparr>attrs := (attrs d)(''subnetworks'' \<mapsto> IMaps (Slice ms))\<rparr>), rest))
   \<and> (dataSourceGoogleComputeUsableSubnetworksRead fuel (observed prov) d config (w, []) =
        Some (out, (w', tr)) \<and> (c, Inl e) \<in> set tr \<longrightarrow>
      out = Inr (diag_FromErr e, d) \<and> last tr = (c, Inl e) \<and> failuresOf tr = [e])"
proof -
  let ?run = "dataSourceGoogleComputeUsableSubnetworksRead fuel (observed prov) d config (w, []) =
        Some (out, (w', tr))"
  let ?script = "\<lparr>generateUserAgentString = g, getProject = gp, Do = scripted\<rparr>"
  have ua: "generateUserAgentString prov d (userAgent config) = Inl e \<longrightarrow>
      dataSourceGoogleComputeUsableSubnetworksRead fuel prov d config w =
        Some (Inr (diag_FromErr e, d), w)"
    by (simp add: read_userAgent_fails)
  have proj: "generateUserAgentString prov d (userAgent config) = Inr ua
        \<and> getProject prov d config = Inl e \<longrightarrow>
      dataSourceGoogleComputeUsableSubnetworksRead fuel prov d config w =
        Some (Inr (diag_FromErr e, d), w)"
    by (simp add: read_project_fails)
  have api: "g d (userAgent config) = Inr ua \<and> gp d config = Inr project
        \<and> (attrs d ''filter'' = None \<or> (\<exists>s. attrs d ''filter'' = Some (IString s)))
        \<and> allContinue ps \<and> noNilPointers ps \<and> length ps < fuel \<longrightarrow>
      dataSourceGoogleComputeUsableSubnetworksRead fuel ?script d config
        (map Inr ps @ Inl e # rest) = Some (Inr (diag_FromErr e, d), rest)"
    by (intro impI, elim conjE) (rule read_scripted_failure)
  have set1: "g d (userAgent config) = Inr ua \<and> gp d config = Inr project
        \<and> (attrs d ''filter'' = None \<or> (\<exists>s. attrs d ''filter'' = Some (IString s)))
        \<and> wellPaged ps \<and> length ps \<le> fuel \<and> map Inr ms = itemsInOrder ps
        \<and> writeField d ''subnetworks'' (IMaps (Slice ms)) = Some e \<longrightarrow>
      dataSourceGoogleComputeUsableSubnetworksRead fuel ?script d config (map Inr ps @ rest) =
        Some (Inr (diag_FromErr (Err (''error setting subnetworks: '' @ Error e)), d), rest)"
  proof (intro impI, elim conjE)
    assume "g d (userAgent config) = Inr ua" "gp d config = Inr project"
      "attrs d ''filter'' = None \<or> (\<exists>s. attrs d ''filter'' = Some (IString s))"
      "wellPaged ps" "length ps \<le> fuel" "map Inr ms = itemsInOrder ps"
      and rej: "writeField d ''subnetworks'' (IMaps (Slice ms)) = Some e"
    from read_scripted_collected
           [where g = g and gp = gp and d = d and config = config and rest = rest, OF this(1-6)] rej
    show "dataSourceGoogleComputeUsableSubnetworksRead fuel ?script d config (map Inr ps @ rest) =
        Some (Inr (diag_FromErr (Err (''error setting subnetworks: '' @ Error e)), d), rest)"
      by (simp add: fmt_Errorf_def)
  qed
  have set2: "g d (userAgent config) = Inr ua \<and> gp d config = Inr project
        \<and> (attrs d ''filter'' = None \<or> (\<exists>s. attrs d ''filter'' = Some (IString s)))
        \<and> wellPaged ps \<and> length ps \<le> fuel \<and> map Inr ms = itemsInOrder ps
        \<and> writeField d ''subnetworks'' (IMaps (Slice ms)) = None
        \<and> writeField d ''project'' (IString project) = Some e \<longrightarrow>
      dataSourceGoogleComputeUsableSubnetworksRead fuel ?script d config (map Inr ps @ rest) =
        Some (Inr (diag_FromErr (Err (''error setting project: '' @ Error e)),
                   d\<lparr>attrs := (attrs d)(''subnetworks'' \<mapsto> IMaps (Slice ms))\<rparr>), rest)"
  proof (intro impI, elim conjE)
    assume "g d (userAgent config) = Inr ua" "gp d config = Inr project"
      "attrs d ''filter'' = None \<or> (\<exists>s. attrs d ''filter'' = Some (IString s))"
      "wellPaged ps" "length ps \<le> fuel" "map Inr ms = itemsInOrder ps"
      and acc: "writeField d ''subnetworks'' (IMaps (Slice ms)) = None"
      and rej: "writeField d ''project'' (IString project) = Some e"
    from read_scripted_collected
           [where g = g and gp = gp and d = d and config = config and rest = rest, OF this(1-6)] acc rej
    show "dataSourceGoogleComputeUsableSubnetworksRead fuel ?script d config (map Inr ps @ rest) =
        Some (Inr (diag_FromErr (Err (''error setting project: '' @ Error e)),
                   d\<lparr>attrs := (attrs d)(''subnetworks'' \<mapsto> IMaps (Slice ms))\<rparr>), rest)"
      by (simp add: fmt_Errorf_def)
  qed
  have last: "?run \<and> (c, Inl e) \<in> set tr \<longrightarrow>
      out = Inr (diag_FromErr e, d) \<and> last tr = (c, Inl e) \<and> failuresOf tr = [e]"
  proof (intro impI, elim conjE)
    assume run: ?run and mem: "(c, Inl e) \<in> set tr"
    from mem have e: "e \<in> set (failuresOf tr)"
      by (rule failuresOf_member)
    from run show "out = Inr (diag_FromErr e, d) \<and> last tr = (c, Inl e) \<and> failuresOf tr = [e]"
    proof (cases rule: read_observed_cases)
      case (exchange_fails ua project e')
      from e exchange_fails(6) have eq: "e' = e" by simp
      from single_failure_is_last [OF exchange_fails(6,7) mem] have "last tr = (c, Inl e)"
        by simp
      with exchange_fails(6,8) eq show ?thesis by simp
    qed (use mem e in simp_all)
  qed
  show ?thesis
    by (intro conjI ua proj api set1 set2 last)
qed

theorem read_errors_propagated_witness:
  "dataSourceGoogleComputeUsableSubnetworksRead 0
     (fixtureProvider (Inl (Err ''no agent'')) (Inr ''p'')) (dataWithFilter None) fixtureConfig [] =
     Some (Inr (diag_FromErr (Err ''no agent''), dataWithFilter None), [])
   \<and> dataSourceGoogleComputeUsableSubnetworksRead 0
     (fixtureProvider (Inr ''ua'') (Inl (Err ''no project''))) (dataWithFilter None)
       fixtureConfig [] =
     Some (Inr (diag_FromErr (Err ''no project''), dataWithFilter None), [])
   \<and> allContinue [pageA] \<and> noNilPointers [pageA]
   \<and> dataSourceGoogleComputeUsableSubnetworksRead (Suc (Suc 0)) okProvider
       (dataWithFilter None) fixtureConfig [Inr pageA, Inl (Err ''quota''), Inr pageB] =
     Some (Inr (diag_FromErr (Err ''quota''), dataWithFilter None), [Inr pageB])
   \<and> wellPaged [pageB]
   \<and> map Inr [tfSubnetworkWith ''b'' [tfRangeA]] = itemsInOrder [pageB]
   \<and> writeField (dataRejecting ''subnetworks'') ''subnetworks''
        (IMaps (Slice [tfSubnetworkWith ''b'' [tfRangeA]])) = Some (Err ''boom'')
   \<and> dataSourceGoogleComputeUsableSubnetworksRead (Suc 0) okProvider
       (dataRejecting ''subnetworks'') fixtureConfig [Inr pageB] =
     Some (Inr (diag_FromErr (Err ''error setting subnetworks: boom''),
                dataRejecting ''subnetworks''), [])
   \<and> writeField (dataRejecting ''project'') ''project'' (IString ''p'') = Some (Err ''boom'')
   \<and> dataSourceGoogleComputeUsableSubnetworksRead (Suc 0) okProvider
       (dataRejecting ''project'') fixtureConfig [Inr pageB] =
     Some (Inr (diag_FromErr (Err ''error setting project: boom''),
                (dataRejecting ''project'')
                  \<lparr>attrs := (attrs (dataRejecting ''project''))(''subnetworks'' \<mapsto>
                     IMaps (Slice [tfSubnetworkWith ''b'' [tfRangeA]]))\<rparr>), [])
   \<and> dataSourceGoogleComputeUsableSubnetworksRead (Suc (Suc 0)) (observed okProvider)
       (dataWithFilter None) fixtureConfig ([Inr pageA, Inl (Err ''quota''), Inr pageB], []) =
     Some (Inr (diag_FromErr (Err ''quota''), dataWithFilter None),
           ([Inr pageB], [(callFor None None, Inr pageA),
                 (callFor None (Some ''t''), Inl (Err ''quota''))]))
   \<and> last [(callFor None None, Inr pageA), (callFor None (Some ''t''), Inl (Err ''quota''))] =
       (callFor None (Some ''t''), Inl (Err ''quota''))"
  using
    read_errors_propagated
      [where prov = "fixtureProvider (Inl (Err ''no agent'')) (Inr ''p'')"
         and d = "dataWithFilter None" and config = fixtureConfig and e = "Err ''no agent''"
         and fuel = 0 and w = "[]" and ps = "[]"]
    read_errors_propagated
      [where prov = "fixtureProvider (Inr ''ua'') (Inl (Err ''no project''))"
         and d = "dataWithFilter None" and config = fixtureConfig and e = "Err ''no project''"
         and ua = "''ua''" and fuel = 0 and w = "[]" and ps = "[]"]
    read_errors_propagated
      [where g = "\<lambda>d s. Inr ''ua''" and gp = "\<lambda>d c. Inr ''p''" and d = "dataWithFilter None"
         and config = fixtureConfig and ua = "''ua''" and project = "''p''"
         and ps = "[pageA]" and fuel = "Suc (Suc 0)" and e = "Err ''quota''"
         and rest = "[Inr pageB]"
         and prov = okProvider and w = "[Inr pageA, Inl (Err ''quota''), Inr pageB]"
         and out = "Inr (diag_FromErr (Err ''quota''), dataWithFilter None)"
         and w' = "[Inr pageB]"
         and tr = "[(callFor None None, Inr pageA),
                    (callFor None (Some ''t''), Inl (Err ''quota''))]"
         and c = "callFor None (Some ''t'')"]
    read_errors_propagated
      [where g = "\<lambda>d s. Inr ''ua''" and gp = "\<lambda>d c. Inr ''p''"
         and d = "dataRejecting ''subnetworks''"
         and config = fixtureConfig and ua = "''ua''" and project = "''p''"
         and ps = "[pageB]" and fuel = "Suc 0" and e = "Err ''boom''" and rest = "[]"
         and ms = "[tfSubnetworkWith ''b'' [tfRangeA]]"]
    read_errors_propagated
      [where g = "\<lambda>d s. Inr ''ua''" and gp = "\<lambda>d c. Inr ''p''"
         and d = "dataRejecting ''project''"
         and config = fixtureConfig and ua = "''ua''" and project = "''p''"
         and ps = "[pageB]" and fuel = "Suc 0" and e = "Err ''boom''" and rest = "[]"
         and ms = "[tfSubnetworkWith ''b'' [tfRangeA]]"]
    run_failing_page run_failing_page_plain run_rejecting_subnetworks run_rejecting_project
    fixture_pages
  by (simp add: fixtureProvider_def fixtureConfig_def dataRejecting_def rejectKey_def)

text \<open>
  C3, as the claim states it, fails for a failure to set an attribute: the error that
  \<open>d.Set\<close> returns for the subnetworks reaches the caller with a prefix before its
  message, not unchanged.
\<close>

theorem read_set_failure_counterexample:
  "writeField (dataRejecting ''subnetworks'') ''subnetworks'' (IMaps (Slice [])) =
     Some (Err ''boom'')
   \<and> dataSourceGoogleComputeUsableSubnetworksRead (Suc 0) okProvider
       (dataRejecting ''subnetworks'') fixtureConfig [Inr (pageWith [] [])] =
     Some (Inr (diag_FromErr (Err ''error setting subnetworks: boom''),
                dataRejecting ''subnetworks''), [])
   \<and> diag_FromErr (Err ''error setting subnetworks: boom'') \<noteq> diag_FromErr (Err ''boom'')"
  by (simp add: read_defs fixture_defs diag_FromErr_def)

text \<open>
  C4. When the service delivers any number of pages and then fails, whether at the first
  call or at a later page, the read returns the diagnostics of that error and the
  resource data it was given, unchanged: the subnetworks attribute, the project
  attribute and the ID are not written. For any service, a read one of whose exchanges
  is a failure returns so, and a read whose first call fails returns whatever fuel it
  has.
\<close>

theorem read_failure_writes_nothing:
  "(g d (userAgent config) = Inr ua \<and> gp d config = Inr project
      \<and> (attrs d ''filter'' = None \<or> (\<exists>s. attrs d ''filter'' = Some (IString s)))
      \<and> allContinue ps \<and> noNilPointers ps \<and> length ps < n \<longrightarrow>
    dataSourceGoogleComputeUsableSubnetworksRead n
      \<lparr>generateUserAgentString = g, getProject = gp, Do = scripted\<rparr> d config
      (map Inr ps @ Inl e # rest) = Some (Inr (diag_FromErr e, d), rest)
    \<and> diag_FromErr e \<noteq> [])
   \<and> (dataSourceGoogleComputeUsableSubnetworksRead fuel (observed prov) d config (w, []) =
      Some (out, (w', tr)) \<and> (c, Inl e) \<in> set tr \<longrightarrow>
    out = Inr (diag_FromErr e, d) \<and> diag_FromErr e \<noteq> [])
   \<and> (generateUserAgentString prov d (userAgent config) = Inr ua
       \<and> getProject prov d config = Inr project
       \<and> (attrs d ''filter'' = None \<or> (\<exists>s. attrs d ''filter'' = Some (IString s)))
       \<and> (\<forall>c. fst (Do prov c w) = Inl e) \<longrightarrow>
      (\<exists>w'. dataSourceGoogleComputeUsableSubnetworksRead (Suc fuel) prov d config w =
         Some (Inr (diag_FromErr e, d), w')))"
proof -
  have script: "g d (userAgent config) = Inr ua \<and> gp d config = Inr project
      \<and> (attrs d ''filter'' = None \<or> (\<exists>s. attrs d ''filter'' = Some (IString s)))
      \<and> allContinue ps \<and> noNilPointers ps \<and> length ps < n \<longrightarrow>
    dataSourceGoogleComputeUsableSubnetworksRead n
      \<lparr>generateUserAgentString = g, getProject = gp, Do = scripted\<rparr> d config
      (map Inr ps @ Inl e # rest) = Some (Inr (diag_FromErr e, d), rest)
    \<and> diag_FromErr e \<noteq> []"
    by (intro impI conjI diag_FromErr_not_Nil, elim conjE) (rule read_scripted_failure)
  have observed_run:
    "dataSourceGoogleComputeUsableSubnetworksRead fuel (observed prov) d config (w, []) =
      Some (out, (w', tr)) \<and> (c, Inl e) \<in> set tr \<longrightarrow>
    out = Inr (diag_FromErr e, d) \<and> diag_FromErr e \<noteq> []"
  proof (intro impI, elim conjE)
    assume run: "dataSourceGoogleComputeUsableSubnetworksRead fuel (observed prov) d config (w, []) =
       Some (out, (w', tr))" and mem: "(c, Inl e) \<in> set tr"
    from mem have e: "e \<in> set (failuresOf tr)"
      by (rule failuresOf_member)
    from run show "out = Inr (diag_FromErr e, d) \<and> diag_FromErr e \<noteq> []"
    proof (cases rule: read_observed_cases)
      case (exchange_fails ua project e')
      from e exchange_fails(6) have "e' = e" by simp
      with exchange_fails(8) show ?thesis
        by (simp add: diag_FromErr_not_Nil)
    qed (use mem e in simp_all)
  qed
  have first_call: "generateUserAgentString prov d (userAgent config) = Inr ua
       \<and> getProject prov d config = Inr project
       \<and> (attrs d ''filter'' = None \<or> (\<exists>s. attrs d ''filter'' = Some (IString s)))
       \<and> (\<forall>c. fst (Do prov c w) = Inl e) \<longrightarrow>
      (\<exists>w'. dataSourceGoogleComputeUsableSubnetworksRead (Suc fuel) prov d config w =
         Some (Inr (diag_FromErr e, d), w'))"
  proof (intro impI, elim conjE)
    assume ua: "generateUserAgentString prov d (userAgent config) = Inr ua"
      and project: "getProject prov d config = Inr project"
      and fl: "attrs d ''filter'' = None \<or> (\<exists>s. attrs d ''filter'' = Some (IString s))"
      and fails: "\<forall>c. fst (Do prov c w) = Inl e"
    from fl have nopanic: "\<forall>xs. attrs d ''filter'' = Some (IMaps xs) \<longrightarrow> elems xs = []"
      by auto
    let ?c = "\<lparr>call_userAgent = ua, call_project = project,
               urlParam_filter = filterParam (attrs d ''filter''), urlParam_pageToken = None\<rparr>"
    obtain ans w'' where ans: "Do prov ?c w = (ans, w'')"
      by (cases "Do prov ?c w")
    with fails have "Do prov ?c w = (Inl e, w'')"
      by (metis fst_conv)
    then have "dataSourceGoogleComputeUsableSubnetworksRead (Suc fuel) prov d config w =
         Some (Inr (diag_FromErr e, d), w'')"
      by (simp add: read_pages [OF ua project nopanic])
    then show "\<exists>w'. dataSourceGoogleComputeUsableSubnetworksRead (Suc fuel) prov d config w =
         Some (Inr (diag_FromErr e, d), w')"
      by blast
  qed
  show ?thesis
    by (intro conjI script observed_run first_call)
qed

theorem read_failure_writes_nothing_witness:
  "allContinue [pageA] \<and> noNilPointers [pageA]
   \<and> dataSourceGoogleComputeUsableSubnetworksRead (Suc (Suc 0)) okProvider
       (dataWithFilter None) fixtureConfig [Inr pageA, Inl (Err ''quota''), Inr pageB] =
     Some (Inr (diag_FromErr (Err ''quota''), dataWithFilter None), [Inr pageB])
   \<and> dataSourceGoogleComputeUsableSubnetworksRead (Suc (Suc 0)) (observed okProvider)
       (dataWithFilter None) fixtureConfig ([Inr pageA, Inl (Err ''quota''), Inr pageB], []) =
     Some (Inr (diag_FromErr (Err ''quota''), dataWithFilter None),
           ([Inr pageB], [(callFor None None, Inr pageA),
                 (callFor None (Some ''t''), Inl (Err ''quota''))]))
   \<and> attrs (dataWithFilter None) ''subnetworks'' = None
   \<and> attrs (dataWithFilter None) ''project'' = None
   \<and> Id (dataWithFilter None) = []
   \<and> dataSourceGoogleComputeUsableSubnetworksRead (Suc 0) okProvider
       (dataWithFilter None) fixtureConfig [Inl (Err ''down'')] =
     Some (Inr (diag_FromErr (Err ''down''), dataWithFilter None), [])"
  using
    read_failure_writes_nothing
      [where g = "\<lambda>d s. Inr ''ua''" and gp = "\<lambda>d c. Inr ''p''" and d = "dataWithFilter None"
         and config = fixtureConfig and ua = "''ua''" and project = "''p''"
         and ps = "[pageA]" and n = "Suc (Suc 0)" and e = "Err ''quota''"
         and rest = "[Inr pageB]"
         and fuel = "Suc (Suc 0)" and prov = okProvider
         and w = "[Inr pageA, Inl (Err ''quota''), Inr pageB]"
         and out = "Inr (diag_FromErr (Err ''quota''), dataWithFilter None)"
         and w' = "[Inr pageB]"
         and tr = "[(callFor None None, Inr pageA),
                    (callFor None (Some ''t''), Inl (Err ''quota''))]"
         and c = "callFor None (Some ''t'')"]
    read_failure_writes_nothing
      [where fuel = 0 and prov = okProvider and d = "dataWithFilter None"
         and config = fixtureConfig and w = "[Inl (Err ''down'')]" and ua = "''ua''"
         and project = "''p''" and e = "Err ''down''" and ps = "[]"]
    run_failing_page run_failing_page_plain run_first_call_fails fixture_pages
  by (simp add: dataWithFilter_def)

section \<open>The result of a read\<close>




text \<open>
  C6. A read that returns without error leaves the resource data it was given with the
  subnetworks attribute, the project attribute and the ID written, and nothing else
  changed: every other attribute, the filter among them, and the field writer are as
  before. The read has no state of its own: what it returns is a function of its
  arguments and of the answers of the service.
\<close>

theorem read_success_frame:
  "dataSourceGoogleComputeUsableSubnetworksRead fuel prov d config w =
     Some (Inr ([], d'), w') \<longrightarrow>
   (\<exists>project acc. getProject prov d config = Inr project
      \<and> d' = d\<lparr>attrs := (attrs d)(''subnetworks'' \<mapsto> IMaps acc,
                                    ''project'' \<mapsto> IString project),
                Id := Id d'\<rparr>)
   \<and> (\<forall>k. k \<noteq> ''subnetworks'' \<and> k \<noteq> ''project'' \<longrightarrow> attrs d' k = attrs d k)
   \<and> attrs d' ''filter'' = attrs d ''filter''
   \<and> writeField d' = writeField d"
proof
  assume run: "dataSourceGoogleComputeUsableSubnetworksRead fuel prov d config w =
     Some (Inr ([], d'), w')"
  with read_observed_plain [of fuel prov d config w "[]"] obtain tr where
    "dataSourceGoogleComputeUsableSubnetworksRead fuel (observed prov) d config (w, []) =
       Some (Inr ([], d'), (w', tr))"
    by (auto split: prod.splits)
  then have shape: "\<exists>project acc. getProject prov d config = Inr project
      \<and> d' = d\<lparr>attrs := (attrs d)(''subnetworks'' \<mapsto> IMaps acc,
                                    ''project'' \<mapsto> IString project),
                Id := Id d'\<rparr>"
  proof (cases rule: read_observed_cases)
    case (collected ua project ms)
    from collected(2,8) show ?thesis
      by (auto simp add: diag_FromErr_def split: option.splits)
  qed (simp_all add: diag_FromErr_def)
  then obtain project acc where d': "d' = d\<lparr>attrs := (attrs d)(''subnetworks'' \<mapsto> IMaps acc,
                                    ''project'' \<mapsto> IString project), Id := Id d'\<rparr>"
    by blast
  have "\<forall>k. k \<noteq> ''subnetworks'' \<and> k \<noteq> ''project'' \<longrightarrow> attrs d' k = attrs d k"
    by (subst d') simp
  moreover have "attrs d' ''filter'' = attrs d ''filter''"
    by (subst d') simp
  moreover have "writeField d' = writeField d"
    by (subst d') simp
  ultimately show "(\<exists>project acc. getProject prov d config = Inr project
      \<and> d' = d\<lparr>attrs := (attrs d)(''subnetworks'' \<mapsto> IMaps acc,
                                    ''project'' \<mapsto> IString project),
                Id := Id d'\<rparr>)
   \<and> (\<forall>k. k \<noteq> ''subnetworks'' \<and> k \<noteq> ''project'' \<longrightarrow> attrs d' k = attrs d k)
   \<and> attrs d' ''filter'' = attrs d ''filter''
   \<and> writeField d' = writeField d"
    using shape by blast
qed

theorem read_success_frame_witness:
  "dataSourceGoogleComputeUsableSubnetworksRead (Suc (Suc 0)) okProvider
     (dataWithFilter (Some (IString ''name=foo''))) fixtureConfig [Inr pageA, Inr pageB] =
   Some (Inr ([], written (dataWithFilter (Some (IString ''name=foo'')))
                    [tfSubnetworkWith ''a'' [], tfSubnetworkWith ''b'' [tfRangeA]]
                    ''p-name=foo''), [])
   \<and> attrs (written (dataWithFilter (Some (IString ''name=foo'')))
                [tfSubnetworkWith ''a'' [], tfSubnetworkWith ''b'' [tfRangeA]] ''p-name=foo'')
        ''filter'' = Some (IString ''name=foo'')
   \<and> writeField (written (dataWithFilter (Some (IString ''name=foo'')))
                [tfSubnetworkWith ''a'' [], tfSubnetworkWith ''b'' [tfRangeA]] ''p-name=foo'') =
       acceptAll"
  using
    read_success_frame
      [where fuel = "Suc (Suc 0)" and prov = okProvider
         and d = "dataWithFilter (Some (IString ''name=foo''))" and config = fixtureConfig
         and w = "[Inr pageA, Inr pageB]" and w' = "[]"
         and d' = "written (dataWithFilter (Some (IString ''name=foo'')))
                    [tfSubnetworkWith ''a'' [], tfSubnetworkWith ''b'' [tfRangeA]]
                    ''p-name=foo''"]
    run_two_pages_plain
  by (simp add: written_def dataWithFilter_def)

section \<open>The filter of a read\<close>

text \<open>
  C7, as the code has it. Every request of an observed read carries the configured filter
  as its filter parameter when the filter attribute holds a non-empty string, and carries
  no filter parameter when the attribute is unset or holds the empty string. A read that
  has its user agent and its project and returns has made at least one request, for that
  project and with that user agent.
\<close>

theorem read_request_filter:
  "(attrs d ''filter'' = Some (IString f) \<and> f \<noteq> [] \<longrightarrow>
      (\<forall>c \<in> set (requestsOf
          (dataSourceGoogleComputeUsableSubnetworksRead fuel (observed prov) d config (w, []))).
         urlParam_filter c = Some f))
   \<and> (attrs d ''filter'' = None \<or> attrs d ''filter'' = Some (IString []) \<longrightarrow>
      (\<forall>c \<in> set (requestsOf
          (dataSourceGoogleComputeUsableSubnetworksRead fuel (observed prov) d config (w, []))).
         urlParam_filter c = None))
   \<and> (dataSourceGoogleComputeUsableSubnetworksRead fuel (observed prov) d config (w, []) =
         Some (out, (w', tr))
       \<and> generateUserAgentString prov d (userAgent config) = Inr ua
       \<and> getProject prov d config = Inr project
       \<and> (attrs d ''filter'' = None \<or> (\<exists>s. attrs d ''filter'' = Some (IString s))) \<longrightarrow>
      tr \<noteq> [] \<and> (\<forall>x \<in> set tr. call_project (fst x) = project \<and> call_userAgent (fst x) = ua))"
proof -
  let ?res = "dataSourceGoogleComputeUsableSubnetworksRead fuel (observed prov) d config (w, [])"
  have calls: "\<forall>c \<in> set (requestsOf ?res). urlParam_filter c = filterParam (attrs d ''filter'')"
  proof (cases ?res)
    case None
    then show ?thesis
      by (simp add: requestsOf_def)
  next
    case (Some res)
    then obtain out w' tr where run: "?res = Some (out, (w', tr))"
      by (cases res) auto
    from run have "\<forall>x \<in> set tr. urlParam_filter (fst x) = filterParam (attrs d ''filter'')"
      by (cases rule: read_observed_cases) simp_all
    with run show ?thesis
      by (simp add: requestsOf_def)
  qed
  have set_filter: "attrs d ''filter'' = Some (IString f) \<and> f \<noteq> [] \<longrightarrow>
      (\<forall>c \<in> set (requestsOf ?res). urlParam_filter c = Some f)"
    using calls by simp
  have no_filter: "attrs d ''filter'' = None \<or> attrs d ''filter'' = Some (IString []) \<longrightarrow>
      (\<forall>c \<in> set (requestsOf ?res). urlParam_filter c = None)"
    using calls by auto
  have sent: "?res = Some (out, (w', tr))
       \<and> generateUserAgentString prov d (userAgent config) = Inr ua
       \<and> getProject prov d config = Inr project
       \<and> (attrs d ''filter'' = None \<or> (\<exists>s. attrs d ''filter'' = Some (IString s))) \<longrightarrow>
      tr \<noteq> [] \<and> (\<forall>x \<in> set tr. call_project (fst x) = project \<and> call_userAgent (fst x) = ua)"
  proof (intro impI, elim conjE)
    assume run: "?res = Some (out, (w', tr))"
      and ua: "generateUserAgentString prov d (userAgent config) = Inr ua"
      and project: "getProject prov d config = Inr project"
      and fl: "attrs d ''filter'' = None \<or> (\<exists>s. attrs d ''filter'' = Some (IString s))"
    from run show "tr \<noteq> [] \<and> (\<forall>x \<in> set tr. call_project (fst x) = project
        \<and> call_userAgent (fst x) = ua)"
    proof (cases rule: read_observed_cases)
      case (nil_pointer ua' project')
      with ua project show ?thesis by simp
    next
      case (exchange_fails ua' project' e)
      with ua project show ?thesis by simp
    next
      case (collected ua' project' ms)
      with ua project show ?thesis by simp
    qed (use ua project fl in auto)
  qed
  show ?thesis
    by (intro conjI set_filter no_filter sent)
qed

theorem read_request_filter_witness:
  "requestsOf (dataSourceGoogleComputeUsableSubnetworksRead (Suc (Suc 0)) (observed okProvider)
       (dataWithFilter (Some (IString ''name=foo''))) fixtureConfig
       ([Inr pageA, Inr pageB], [])) =
     [callFor (Some ''name=foo'') None, callFor (Some ''name=foo'') (Some ''t'')]
   \<and> requestsOf (dataSourceGoogleComputeUsableSubnetworksRead (Suc (Suc 0))
       (observed okProvider) (dataWithFilter None) fixtureConfig
       ([Inr pageA, Inr pageB], [])) =
     [callFor None None, callFor None (Some ''t'')]
   \<and> urlParam_filter (callFor (Some ''name=foo'') (Some ''t'')) = Some ''name=foo''
   \<and> urlParam_filter (callFor None (Some ''t'')) = None"
  using
    read_request_filter
      [where d = "dataWithFilter (Some (IString ''name=foo''))" and f = "''name=foo''"
         and fuel = "Suc (Suc 0)" and prov = okProvider and config = fixtureConfig
         and w = "[Inr pageA, Inr pageB]" and w' = "[]" and ua = "''ua''" and project = "''p''"
         and out = "Inr ([], written (dataWithFilter (Some (IString ''name=foo'')))
                    [tfSubnetworkWith ''a'' [], tfSubnetworkWith ''b'' [tfRangeA]]
                    ''p-name=foo'')"
         and tr = "[(callFor (Some ''name=foo'') None, Inr pageA),
                    (callFor (Some ''name=foo'') (Some ''t''), Inr pageB)]"]
    read_request_filter
      [where d = "dataWithFilter None" and f = "''x''"
         and fuel = "Suc (Suc 0)" and prov = okProvider and config = fixtureConfig
         and w = "[Inr pageA, Inr pageB]" and w' = "[]" and ua = "''ua''" and project = "''p''"
         and out = "Inr ([], written (dataWithFilter None)
                    [tfSubnetworkWith ''a'' [], tfSubnetworkWith ''b'' [tfRangeA]] ''p-ALL'')"
         and tr = "[(callFor None None, Inr pageA), (callFor None (Some ''t''), Inr pageB)]"]
    run_two_pages run_two_pages_unset_observed
  by (simp add: requestsOf_def callFor_def)

text \<open>
  C7, as the claim states it, fails for a filter set to the empty string: the request
  does not carry that string as its filter parameter, it carries no filter parameter.
\<close>

theorem read_request_empty_filter_counterexample:
  "attrs (dataWithFilter (Some (IString []))) ''filter'' = Some (IString [])
   \<and> requestsOf (dataSourceGoogleComputeUsableSubnetworksRead (Suc 0) (observed okProvider)
        (dataWithFilter (Some (IString []))) fixtureConfig ([Inr pageB], [])) =
       [callFor None None]
   \<and> urlParam_filter (callFor None None) = None
   \<and> urlParam_filter (callFor None None) \<noteq> Some []"
  using run_empty_filter
  by (simp add: requestsOf_def callFor_def dataWithFilter_def)

text \<open>
  C10. In a read that returns without error, the filter of the ID is the filter of the
  requests, both being what the optional lookup of the filter attribute gives: when it
  gives a value, that value is a non-empty string, every request carries it and the ID
  ends with it; when it gives none, as for an unset filter and for the empty string, no
  request carries a filter and the ID ends with \<open>ALL\<close>.
\<close>

theorem read_id_agrees_with_request:
  "(dataSourceGoogleComputeUsableSubnetworksRead fuel (observed prov) d config (w, []) =
      Some (Inr ([], d'), (w', tr)) \<longrightarrow>
    tr \<noteq> [] \<and>
    (\<exists>project. getProject prov d config = Inr project \<and>
       (case GetOk d ''filter'' of
          Some v \<Rightarrow>
            (\<exists>f. v = IString f \<and> f \<noteq> [] \<and> attrs d ''filter'' = Some (IString f)
               \<and> (\<forall>x \<in> set tr. urlParam_filter (fst x) = Some f)
               \<and> Id d' = project @ ''-'' @ f)
        | None \<Rightarrow>
            (\<forall>x \<in> set tr. urlParam_filter (fst x) = None)
            \<and> Id d' = project @ ''-'' @ ''ALL'')))
   \<and> (attrs d ''filter'' = None \<or> attrs d ''filter'' = Some (IString []) \<longrightarrow>
        GetOk d ''filter'' = None)"
proof -
  have lookup: "attrs d ''filter'' = None \<or> attrs d ''filter'' = Some (IString []) \<longrightarrow>
        GetOk d ''filter'' = None"
    by (auto simp add: GetOk_def)
  have agree: "dataSourceGoogleComputeUsableSubnetworksRead fuel (observed prov) d config (w, []) =
      Some (Inr ([], d'), (w', tr)) \<longrightarrow>
    tr \<noteq> [] \<and>
    (\<exists>project. getProject prov d config = Inr project \<and>
       (case GetOk d ''filter'' of
          Some v \<Rightarrow>
            (\<exists>f. v = IString f \<and> f \<noteq> [] \<and> attrs d ''filter'' = Some (IString f)
               \<and> (\<forall>x \<in> set tr. urlParam_filter (fst x) = Some f)
               \<and> Id d' = project @ ''-'' @ f)
        | None \<Rightarrow>
            (\<forall>x \<in> set tr. urlParam_filter (fst x) = None)
            \<and> Id d' = project @ ''-'' @ ''ALL''))"
  proof
    assume run: "dataSourceGoogleComputeUsableSubnetworksRead fuel (observed prov) d config (w, []) =
      Some (Inr ([], d'), (w', tr))"
    from run show "tr \<noteq> [] \<and>
      (\<exists>project. getProject prov d config = Inr project \<and>
       (case GetOk d ''filter'' of
          Some v \<Rightarrow>
            (\<exists>f. v = IString f \<and> f \<noteq> [] \<and> attrs d ''filter'' = Some (IString f)
               \<and> (\<forall>x \<in> set tr. urlParam_filter (fst x) = Some f)
               \<and> Id d' = project @ ''-'' @ f)
        | None \<Rightarrow>
            (\<forall>x \<in> set tr. urlParam_filter (fst x) = None)
            \<and> Id d' = project @ ''-'' @ ''ALL''))"
    proof (cases rule: read_observed_cases)
      case (collected ua project ms)
      from collected(8) have ident: "Id d' = project @ ''-'' @
          (case filterParam (attrs d ''filter'') of None \<Rightarrow> ''ALL'' | Some f \<Rightarrow> f)"
        by (auto simp add: diag_FromErr_def split: option.splits)
      show ?thesis
      proof (cases "attrs d ''filter''")
        case None
        with collected(2,4,5) ident show ?thesis
          by (simp add: GetOk_def)
      next
        case (Some v)
        show ?thesis
        proof (cases v)
          case (IString f)
          with Some collected(2,4,5) ident show ?thesis
            by (simp add: GetOk_def)
        next
          case (IMaps xs)
          with Some collected(3) have "elems xs = []" by simp
          with IMaps Some collected(2,4,5) ident show ?thesis
            by (simp add: GetOk_def)
        qed
      qed
    qed (simp_all add: diag_FromErr_def)
  qed
  show ?thesis
    by (intro conjI agree lookup)
qed

theorem read_id_agrees_with_request_witness:
  "dataSourceGoogleComputeUsableSubnetworksRead (Suc (Suc 0)) (observed okProvider)
     (dataWithFilter (Some (IString ''name=foo''))) fixtureConfig ([Inr pageA, Inr pageB], []) =
   Some (Inr ([], written (dataWithFilter (Some (IString ''name=foo'')))
                    [tfSubnetworkWith ''a'' [], tfSubnetworkWith ''b'' [tfRangeA]]
                    ''p-name=foo''),
         ([], [(callFor (Some ''name=foo'') None, Inr pageA),
               (callFor (Some ''name=foo'') (Some ''t''), Inr pageB)]))
   \<and> dataSourceGoogleComputeUsableSubnetworksRead (Suc 0) (observed okProvider)
     (dataWithFilter (Some (IString []))) fixtureConfig ([Inr pageB], []) =
   Some (Inr ([], written (dataWithFilter (Some (IString [])))
                    [tfSubnetworkWith ''b'' [tfRangeA]] ''p-ALL''),
         ([], [(callFor None None, Inr pageB)]))
   \<and> GetOk (dataWithFilter (Some (IString []))) ''filter'' = None
   \<and> GetOk (dataWithFilter (Some (IString ''name=foo''))) ''filter'' =
       Some (IString ''name=foo'')"
  using
    read_id_agrees_with_request
      [where fuel = "Suc (Suc 0)" and prov = okProvider
         and d = "dataWithFilter (Some (IString ''name=foo''))" and config = fixtureConfig
         and w = "[Inr pageA, Inr pageB]" and w' = "[]"
         and d' = "written (dataWithFilter (Some (IString ''name=foo'')))
                    [tfSubnetworkWith ''a'' [], tfSubnetworkWith ''b'' [tfRangeA]]
                    ''p-name=foo''"
         and tr = "[(callFor (Some ''name=foo'') None, Inr pageA),
                    (callFor (Some ''name=foo'') (Some ''t''), Inr pageB)]"]
    read_id_agrees_with_request
      [where fuel = "Suc 0" and prov = okProvider
         and d = "dataWithFilter (Some (IString []))" and config = fixtureConfig
         and w = "[Inr pageB]" and w' = "[]"
         and d' = "written (dataWithFilter (Some (IString [])))
                    [tfSubnetworkWith ''b'' [tfRangeA]] ''p-ALL''"
         and tr = "[(callFor None None, Inr pageB)]"]
    run_two_pages run_empty_filter
  by (simp add: GetOk_def dataWithFilter_def)

end
